theory Spec2Isabelle
  imports Complex_Main "HOL-Library.Multiset" "HOL-Library.Log_Nat"
begin

section \<open>Conventions of the embedding\<close>

text \<open>
  The TypeScript sources are embedded as HOL functions.

  \<^item> A JavaScript \<open>number\<close> is an IEEE-754 double, and a double is the \<open>real\<close> it
    denotes. In the pixel composition (\<open>imageUtils.ts\<close>), where the source takes a
    ceiling and compares sums with a threshold, every arithmetic operation of the
    source is the exact operation on reals followed by the rounding \<open>fl\<close> to the
    nearest double, ties to even. The exponent range of \<open>fl\<close> is not bounded, so the
    model is the arithmetic of the program for inputs that are doubles as long as no
    result overflows (magnitude \<open>2\<^sup>1\<^sup>0\<^sup>2\<^sup>4\<close> and above) or is subnormal (below
    \<open>2\<^sup>-\<^sup>1\<^sup>0\<^sup>2\<^sup>2\<close>); \<open>NaN\<close> and the infinities are outside the model. In the region
    interaction (\<open>ImageCropper.tsx\<close>) coordinates are reals and arithmetic is exact.
    Wherever the source divides, the model is faithful for a divisor different from
    zero (HOL's \<open>x / 0 = 0\<close> is not what JavaScript computes): the statements about
    images assume sizes that are positive, and a container of width or height zero is
    outside the model.
  \<^item> An array index is an \<open>int\<close>.
  \<^item> \<open>crypto.randomUUID()\<close> is an argument of the function that calls it.
  \<^item> A React state setter becomes a field update of an explicit state record; a
    handler is a function from the state before the event to the state after it.
  \<^item> Several interfaces of \<open>types.ts\<close> share field names (\<open>id\<close>, \<open>width\<close>,
    \<open>crops\<close>, ...), and \<open>id\<close>, \<open>x\<close>, \<open>y\<close> are taken in HOL, so every field carries
    the name of its interface: \<open>crop_x\<close> is \<open>CropRegion.x\<close>, \<open>layer_crops\<close> is
    \<open>ImageLayer.crops\<close>, and so on.
\<close>

section \<open>Data model (\<open>types.ts\<close>)\<close>

record CropRegion =
  crop_id :: string
  crop_x :: real
  crop_y :: real
  crop_width :: real
  crop_height :: real
  isLocked :: bool
  replacementSrc :: "string option"
  isStitched :: bool

record ImageLayer =
  layer_id :: string
  groupId :: "string option"
  layer_name :: string
  layer_src :: string
  layer_width :: real
  layer_height :: real
  layer_crops :: "CropRegion list"

record AssetGroup =
  group_id :: string
  group_name :: string
  layerIds :: "string list"
  group_crops :: "CropRegion list"
  parentGroupId :: "string option"

record StitchItem =
  item_id :: string
  item_layerId :: string
  item_cropId :: string

text \<open>
  JavaScript truthiness of an optional string (\<open>!l.groupId\<close>, \<open>&& activeCropId\<close>):
  \<open>undefined\<close>, \<open>null\<close> and the empty string are falsy.
\<close>

definition truthy :: "string option \<Rightarrow> bool" where
  "truthy v = (case v of None \<Rightarrow> False | Some s \<Rightarrow> s \<noteq> [])"

section \<open>Double-precision arithmetic\<close>

text \<open>
  The integer nearest to a real, the even one of the two when the real lies halfway
  between two integers.
\<close>

definition roundEven :: "real \<Rightarrow> int" where
  "roundEven x =
     (let f = \<lfloor>x\<rfloor>; d = x - of_int f
      in if d < 1/2 then f else if 1/2 < d then f + 1 else if even f then f else f + 1)"

text \<open>
  The binary exponent of a positive real: the \<open>e\<close> with \<open>2\<^sup>e \<le> x < 2\<^sup>e\<^sup>+\<^sup>1\<close>, computed
  from the number of binary digits of the integer part of \<open>x\<close>, or of \<open>1 / x\<close> for
  \<open>x < 1\<close>.
\<close>

definition exponentOf :: "real \<Rightarrow> int" where
  "exponentOf x =
     (if 1 \<le> x then int (floorlog 2 (nat \<lfloor>x\<rfloor>)) - 1
      else - int (floorlog 2 (nat (\<lceil>1 / x\<rceil> - 1))))"

text \<open>
  Rounding to the nearest double: a double has a significand of 53 binary digits, so
  between \<open>2\<^sup>e\<close> and \<open>2\<^sup>e\<^sup>+\<^sup>1\<close> the doubles are the multiples of \<open>2\<^sup>e\<^sup>-\<^sup>5\<^sup>2\<close>. The result of
  an operation of the source on doubles \<open>a\<close> and \<open>b\<close> is \<open>fl (a + b)\<close>, \<open>fl (a - b)\<close>,
  \<open>fl (a * b)\<close>, \<open>fl (a / b)\<close>; a decimal literal \<open>0.6\<close> is \<open>fl (6/10)\<close>.
\<close>

definition fl :: "real \<Rightarrow> real" where
  "fl x =
     (if x = 0 then 0
      else let ulp = 2 powi (exponentOf \<bar>x\<bar> - 52)
           in sgn x * of_int (roundEven (\<bar>x\<bar> / ulp)) * ulp)"


section \<open>Pixel composition (\<open>utils/imageUtils.ts\<close>)\<close>

subsection \<open>\<open>generateStitchedCanvas\<close>\<close>

text \<open>A decoded \<open>HTMLImageElement\<close>: its source and its pixel size.\<close>

record HTMLImageElement =
  img_src :: string
  img_width :: real
  img_height :: real

text \<open>One \<open>ctx.drawImage(img, x, y, w, h)\<close> call.\<close>

record DrawCall =
  dc_img :: HTMLImageElement
  dc_x :: real
  dc_y :: real
  dc_width :: real
  dc_height :: real

record StitchedCanvas =
  sc_width :: int
  sc_height :: int
  sc_draws :: "DrawCall list"

datatype CanvasError = NoCanvasContext

text \<open>Step 2 of the source: the scaled size of every image.\<close>

definition dimensions :: "real \<Rightarrow> HTMLImageElement list \<Rightarrow> (HTMLImageElement \<times> real \<times> real) list" where
  "dimensions maxHeight loadedImages =
     map (\<lambda>img. let aspectRatio = fl (img_width img / img_height img);
                     newWidth = fl (aspectRatio * maxHeight)
                 in (img, newWidth, maxHeight)) loadedImages"

text \<open>
  The variable \<open>totalWidth\<close> after the \<open>map\<close>: its callback adds every \<open>newWidth\<close> to
  it, in input order.
\<close>

definition totalWidth :: "(HTMLImageElement \<times> real \<times> real) list \<Rightarrow> real" where
  "totalWidth dims = foldl (\<lambda>total (img, w, h). fl (total + w)) 0 dims"

text \<open>Step 4 of the source: the drawing loop, \<open>currentX\<close> being its running variable.\<close>

fun drawImages :: "real \<Rightarrow> (HTMLImageElement \<times> real \<times> real) list \<Rightarrow> DrawCall list" where
  "drawImages currentX [] = []"
| "drawImages currentX ((img, w, h) # dims) =
     \<lparr>dc_img = img, dc_x = currentX, dc_y = 0, dc_width = w, dc_height = h\<rparr>
       # drawImages (fl (currentX + w)) dims"

text \<open>
  \<open>ctx\<close> tells whether \<open>canvas.getContext('2d')\<close> returned a context. The result
  \<open>Inr None\<close> is the empty string returned for an empty input, \<open>Inl\<close> the thrown error.
  The argument is the list of images already decoded by \<open>loadImage\<close>.
\<close>

definition generateStitchedCanvas ::
  "bool \<Rightarrow> HTMLImageElement list \<Rightarrow> CanvasError + StitchedCanvas option" where
  "generateStitchedCanvas ctx loadedImages =
     (if length loadedImages = 0 then Inr None
      else
        let maxHeight = Max (set (map img_height loadedImages));
            dims = dimensions maxHeight loadedImages
        in if \<not> ctx then Inl NoCanvasContext
           else Inr (Some \<lparr>sc_width = \<lceil>totalWidth dims\<rceil>, sc_height = \<lceil>maxHeight\<rceil>,
                           sc_draws = drawImages 0 dims\<rparr>))"

subsection \<open>\<open>generateSmartStitch\<close>\<close>

record SmartStitchImage =
  ss_id :: string
  ss_dataUrl :: string
  ss_width :: real
  ss_height :: real

record Settings =
  containerWidth :: real
  targetRowHeight :: real
  spacing :: real
  backgroundColor :: string

text \<open>An entry of a row: \<open>{ img, aspectRatio, scaledWidth }\<close>.\<close>

record RowItem =
  ri_img :: SmartStitchImage
  aspectRatio :: real
  scaledWidth :: real

record SmartStitchLayoutItem =
  li_img :: SmartStitchImage
  li_x :: real
  li_y :: real
  li_width :: real
  li_height :: real

record SmartStitchCanvas =
  ssc_width :: real
  ssc_height :: real
  ssc_layout :: "SmartStitchLayoutItem list"

text \<open>
  The packing loop \<open>for (const image of images)\<close>, with its three variables \<open>rows\<close>,
  \<open>currentRow\<close> and \<open>currentWidth\<close>; the base case is the \<open>if (currentRow.length > 0)\<close>
  that follows the loop.
\<close>

fun buildRows ::
  "Settings \<Rightarrow> SmartStitchImage list \<Rightarrow> RowItem list list \<Rightarrow> RowItem list \<Rightarrow> real
     \<Rightarrow> RowItem list list" where
  "buildRows s [] rows currentRow currentWidth =
     (if length currentRow > 0 then rows @ [currentRow] else rows)"
| "buildRows s (im # images) rows currentRow currentWidth =
     (let aspect = fl (ss_width im / ss_height im);
          scaled = fl (targetRowHeight s * aspect);
          currentRow' = currentRow @ [\<lparr>ri_img = im, aspectRatio = aspect, scaledWidth = scaled\<rparr>];
          currentWidth' = fl (currentWidth + scaled);
          totalWidthWithSpacing =
            fl (currentWidth' + fl ((real (length currentRow') - 1) * spacing s))
      in if totalWidthWithSpacing \<ge> containerWidth s
         then buildRows s images (rows @ [currentRow']) [] 0
         else buildRows s images rows currentRow' currentWidth')"

definition rowAspectRatio :: "RowItem list \<Rightarrow> real" where
  "rowAspectRatio row = foldl (\<lambda>sum item. fl (sum + aspectRatio item)) 0 row"

definition availableWidth :: "Settings \<Rightarrow> RowItem list \<Rightarrow> real" where
  "availableWidth s row =
     fl (fl (containerWidth s - fl (spacing s * 2)) - fl ((real (length row) - 1) * spacing s))"

text \<open>The condition under which a row keeps \<open>targetRowHeight\<close> (the sparse last row).\<close>

definition exempt :: "Settings \<Rightarrow> bool \<Rightarrow> RowItem list \<Rightarrow> bool" where
  "exempt s isLastRow row =
     (isLastRow \<and> length row > 0
        \<and> rowAspectRatio row < fl (fl (availableWidth s row / targetRowHeight s) * fl (6/10)))"

definition rowHeight :: "Settings \<Rightarrow> bool \<Rightarrow> RowItem list \<Rightarrow> real" where
  "rowHeight s isLastRow row =
     (if exempt s isLastRow row then targetRowHeight s
      else fl (availableWidth s row / rowAspectRatio row))"

text \<open>The inner loop \<open>for (const item of row)\<close>, \<open>x\<close> being its running variable.\<close>

fun layoutRow :: "Settings \<Rightarrow> real \<Rightarrow> real \<Rightarrow> real \<Rightarrow> RowItem list \<Rightarrow> SmartStitchLayoutItem list" where
  "layoutRow s rh y x [] = []"
| "layoutRow s rh y x (item # row) =
     (let width = fl (rh * aspectRatio item)
      in \<lparr>li_img = ri_img item, li_x = x, li_y = y, li_width = width, li_height = rh\<rparr>
           # layoutRow s rh y (fl (x + fl (width + spacing s))) row)"

text \<open>
  The outer loop over the rows, \<open>y\<close> being its running variable. \<open>isLastRow\<close>
  (\<open>i === rows.length - 1\<close>) holds exactly when no row follows. The function returns
  the layout items row by row together with the final \<open>y\<close>; the source's flat
  \<open>layout\<close> array is their concatenation.
\<close>

fun layoutRows ::
  "Settings \<Rightarrow> real \<Rightarrow> RowItem list list \<Rightarrow> SmartStitchLayoutItem list list \<times> real" where
  "layoutRows s y [] = ([], y)"
| "layoutRows s y (row # rows) =
     (let isLastRow = (rows = []);
          rh = rowHeight s isLastRow row;
          items = layoutRow s rh y (spacing s) row;
          (rest, totalHeight) = layoutRows s (fl (y + fl (rh + spacing s))) rows
      in (items # rest, totalHeight))"

text \<open>
  \<open>None\<close> is the empty string the source returns for an empty input or a missing
  context. The canvas size is the pair of numbers assigned to \<open>canvas.width\<close> and
  \<open>canvas.height\<close>.
\<close>

definition generateSmartStitch :: "bool \<Rightarrow> SmartStitchImage list \<Rightarrow> Settings \<Rightarrow> SmartStitchCanvas option" where
  "generateSmartStitch ctx images s =
     (if length images = 0 then None
      else
        let rows = buildRows s images [] [] 0;
            (layout, totalHeight) = layoutRows s (spacing s) rows
        in if \<not> ctx then None
           else Some \<lparr>ssc_width = containerWidth s, ssc_height = totalHeight,
                      ssc_layout = concat layout\<rparr>)"

section \<open>Region interaction (\<open>components/ImageCropper.tsx\<close>)\<close>

datatype InteractionMode = Create | Move | ResizeNW | ResizeNE | ResizeSW | ResizeSE

text \<open>The \<open>interaction\<close> state: mode, start position, snapshot and id of the region.\<close>

record Interaction =
  mode :: InteractionMode
  startX :: real
  startY :: real
  initialCrop :: "CropRegion option"
  activeId :: "string option"

text \<open>The \<open>tempSelection\<close> preview (a \<open>Partial<CropRegion>\<close> with four fields).\<close>

record Selection =
  sel_x :: real
  sel_y :: real
  sel_width :: real
  sel_height :: real

text \<open>
  The state of one \<open>ImageCropper\<close>. \<open>layer\<close> is the owner passed as a prop;
  \<open>onUpdateLayer\<close> replaces it (for a Layer through \<open>handleUpdateLayer\<close>, for a Group
  through \<open>handleProxyUpdate\<close>, which stores the \<open>crops\<close> of the proxy layer), so
  \<open>layer_crops (layer st)\<close> is the owner's committed region list. The refs
  \<open>layerRef\<close>, \<open>interactionRef\<close> and \<open>optimisticCropRef\<close> mirror the state after every
  render and are read as the state itself.
\<close>

record CropperState =
  layer :: ImageLayer
  activeCropId :: "string option"
  optimisticCrop :: "CropRegion option"
  interaction :: "Interaction option"
  tempSelection :: "Selection option"

text \<open>The bounding rectangle of the container (\<open>getBoundingClientRect\<close>).\<close>

record DOMRect =
  rect_left :: real
  rect_top :: real
  rect_width :: real
  rect_height :: real

text \<open>\<open>None\<close> stands for \<open>containerRef.current\<close> being \<open>null\<close>.\<close>

definition getClientPos :: "DOMRect option \<Rightarrow> real \<Rightarrow> real \<Rightarrow> real \<times> real" where
  "getClientPos container clientX clientY =
     (case container of
        None \<Rightarrow> (0, 0)
      | Some rect \<Rightarrow> (((clientX - rect_left rect) / rect_width rect) * 100,
                      ((clientY - rect_top rect) / rect_height rect) * 100))"

definition onUpdateLayer :: "ImageLayer \<Rightarrow> CropperState \<Rightarrow> CropperState" where
  "onUpdateLayer updatedLayer st = st\<lparr>layer := updatedLayer\<rparr>"

text \<open>
  The block \<open>MODIFICATION MODES\<close> of \<open>handleWindowMouseMove\<close>: the rectangle computed
  from the snapshot \<open>init\<close> and the pointer displacement. The assignments are kept in
  the order of the source (\<open>newCrop.width\<close> reads the \<open>newCrop.x\<close> just written).
\<close>

definition modifiedCrop :: "InteractionMode \<Rightarrow> CropRegion \<Rightarrow> real \<Rightarrow> real \<Rightarrow> CropRegion" where
  "modifiedCrop m init dx dy =
     (if m = Move then
        (let newX = min (max 0 (crop_x init + dx)) (100 - crop_width init);
             newY = min (max 0 (crop_y init + dy)) (100 - crop_height init)
         in init\<lparr>crop_x := newX, crop_y := newY\<rparr>)
      else if m = ResizeSE then
        init\<lparr>crop_width := max 1 (min (crop_width init + dx) (100 - crop_x init)),
             crop_height := max 1 (min (crop_height init + dy) (100 - crop_y init))\<rparr>
      else if m = ResizeSW then
        (let proposedX = min (crop_x init + dx) (crop_x init + crop_width init - 1);
             newX = max 0 proposedX
         in init\<lparr>crop_x := newX,
                 crop_width := crop_width init + (crop_x init - newX),
                 crop_height := max 1 (min (crop_height init + dy) (100 - crop_y init))\<rparr>)
      else if m = ResizeNE then
        (let proposedY = min (crop_y init + dy) (crop_y init + crop_height init - 1);
             newY = max 0 proposedY
         in init\<lparr>crop_y := newY,
                 crop_height := crop_height init + (crop_y init - newY),
                 crop_width := max 1 (min (crop_width init + dx) (100 - crop_x init))\<rparr>)
      else if m = ResizeNW then
        (let proposedX = min (crop_x init + dx) (crop_x init + crop_width init - 1);
             proposedY = min (crop_y init + dy) (crop_y init + crop_height init - 1);
             newX = max 0 proposedX;
             newY = max 0 proposedY
         in init\<lparr>crop_x := newX, crop_y := newY,
                 crop_width := crop_width init + (crop_x init - newX),
                 crop_height := crop_height init + (crop_y init - newY)\<rparr>)
      else init)"

definition handleWindowMouseMove ::
  "DOMRect option \<Rightarrow> real \<Rightarrow> real \<Rightarrow> CropperState \<Rightarrow> CropperState" where
  "handleWindowMouseMove container clientX clientY st =
     (case interaction st of
        None \<Rightarrow> st
      | Some currentInteraction \<Rightarrow>
          (let (posx, posy) = getClientPos container clientX clientY
           in if mode currentInteraction = Create then
                st\<lparr>tempSelection :=
                     Some \<lparr>sel_x = min (startX currentInteraction) posx,
                           sel_y = min (startY currentInteraction) posy,
                           sel_width = \<bar>posx - startX currentInteraction\<bar>,
                           sel_height = \<bar>posy - startY currentInteraction\<bar>\<rparr>\<rparr>
              else
                (case initialCrop currentInteraction of
                   None \<Rightarrow> st
                 | Some init \<Rightarrow>
                     if \<not> truthy (activeId currentInteraction) then st
                     else
                       (let dx = posx - startX currentInteraction;
                            dy = posy - startY currentInteraction
                        in st\<lparr>optimisticCrop :=
                                 Some (modifiedCrop (mode currentInteraction) init dx dy)\<rparr>))))"

text \<open>\<open>newId\<close> is the \<open>crypto.randomUUID()\<close> of a created region.\<close>

definition handleWindowMouseUp ::
  "DOMRect option \<Rightarrow> real \<Rightarrow> real \<Rightarrow> string \<Rightarrow> CropperState \<Rightarrow> CropperState" where
  "handleWindowMouseUp container clientX clientY newId st =
     (case interaction st of
        None \<Rightarrow> st
      | Some currentInteraction \<Rightarrow>
          (let st1 =
             (if mode currentInteraction = Create then
                (let (posx, posy) = getClientPos container clientX clientY;
                     newCrop = \<lparr>crop_id = newId,
                                crop_x = min (startX currentInteraction) posx,
                                crop_y = min (startY currentInteraction) posy,
                                crop_width = \<bar>posx - startX currentInteraction\<bar>,
                                crop_height = \<bar>posy - startY currentInteraction\<bar>,
                                isLocked = False, replacementSrc = None, isStitched = False\<rparr>
                 in if crop_width newCrop > 1 \<and> crop_height newCrop > 1 then
                      (let currentLayer = layer st
                       in (onUpdateLayer
                             (currentLayer\<lparr>layer_crops := layer_crops currentLayer @ [newCrop]\<rparr>) st)
                            \<lparr>activeCropId := Some (crop_id newCrop)\<rparr>)
                    else st)
              else
                (case optimisticCrop st of
                   None \<Rightarrow> st
                 | Some finalCrop \<Rightarrow>
                     if truthy (activeId currentInteraction) then
                       (let currentLayer = layer st
                        in onUpdateLayer
                             (currentLayer\<lparr>layer_crops :=
                                map (\<lambda>c. if Some (crop_id c) = activeId currentInteraction
                                          then finalCrop else c)
                                    (layer_crops currentLayer)\<rparr>) st)
                     else st))
           in st1\<lparr>interaction := None, tempSelection := None, optimisticCrop := None\<rparr>))"

definition handleMouseDown ::
  "DOMRect option \<Rightarrow> real \<Rightarrow> real \<Rightarrow> CropperState \<Rightarrow> CropperState" where
  "handleMouseDown container clientX clientY st =
     (let (posx, posy) = getClientPos container clientX clientY
      in st\<lparr>interaction := Some \<lparr>mode = Create, startX = posx, startY = posy,
                                  initialCrop = None, activeId = None\<rparr>,
             tempSelection := Some \<lparr>sel_x = posx, sel_y = posy, sel_width = 0, sel_height = 0\<rparr>,
             activeCropId := None\<rparr>)"

definition handleCropMouseDown ::
  "DOMRect option \<Rightarrow> real \<Rightarrow> real \<Rightarrow> CropRegion \<Rightarrow> CropperState \<Rightarrow> CropperState" where
  "handleCropMouseDown container clientX clientY crop st =
     (let st1 = st\<lparr>activeCropId := Some (crop_id crop)\<rparr>
      in if isLocked crop then st1
         else
           (let (posx, posy) = getClientPos container clientX clientY
            in st1\<lparr>interaction := Some \<lparr>mode = Move, startX = posx, startY = posy,
                                         initialCrop = Some crop, activeId = Some (crop_id crop)\<rparr>,
                    optimisticCrop := Some crop\<rparr>))"

definition handleResizeMouseDown ::
  "DOMRect option \<Rightarrow> real \<Rightarrow> real \<Rightarrow> CropRegion \<Rightarrow> InteractionMode \<Rightarrow> CropperState
     \<Rightarrow> CropperState" where
  "handleResizeMouseDown container clientX clientY crop handle st =
     (let (posx, posy) = getClientPos container clientX clientY
      in st\<lparr>activeCropId := Some (crop_id crop),
             interaction := Some \<lparr>mode = handle, startX = posx, startY = posy,
                                  initialCrop = Some crop, activeId = Some (crop_id crop)\<rparr>,
             optimisticCrop := Some crop\<rparr>)"

definition handleDeleteCrop :: "string \<Rightarrow> CropperState \<Rightarrow> CropperState" where
  "handleDeleteCrop cropId st =
     (let updatedCrops = filter (\<lambda>c. crop_id c \<noteq> cropId) (layer_crops (layer st));
          st1 = onUpdateLayer ((layer st)\<lparr>layer_crops := updatedCrops\<rparr>) st
      in if activeCropId st = Some cropId then st1\<lparr>activeCropId := None\<rparr> else st1)"

definition handleKeyDown :: "string \<Rightarrow> CropperState \<Rightarrow> CropperState" where
  "handleKeyDown key st =
     (if (key = ''Delete'' \<or> key = ''Backspace'') \<and> truthy (activeCropId st) then
        (case find (\<lambda>c. Some (crop_id c) = activeCropId st) (layer_crops (layer st)) of
           None \<Rightarrow> st
         | Some crop \<Rightarrow>
             if \<not> isLocked crop then handleDeleteCrop (the (activeCropId st)) st else st)
      else st)"

text \<open>The regions as rendered: the region being dragged is shown in its ephemeral state.\<close>

definition displayedCrops :: "CropperState \<Rightarrow> CropRegion list" where
  "displayedCrops st =
     map (\<lambda>c. case optimisticCrop st of
                 None \<Rightarrow> c
               | Some oc \<Rightarrow> if crop_id c = crop_id oc then oc else c)
         (layer_crops (layer st))"

text \<open>
  The events the component reacts to, and their dispatch as the JSX wires it: a region
  receives \<open>onMouseDown\<close> only if it is rendered, its four resize handles exist only
  while it is active and unlocked, and the two window listeners are attached only
  while \<open>interaction\<close> is set.
\<close>

datatype Event =
    MouseDown real real
  | CropMouseDown string real real
  | ResizeMouseDown string InteractionMode real real
  | WindowMouseMove real real
  | WindowMouseUp real real string
  | KeyDown string

fun step :: "DOMRect option \<Rightarrow> CropperState \<Rightarrow> Event \<Rightarrow> CropperState" where
  "step container st (MouseDown cx cy) = handleMouseDown container cx cy st"
| "step container st (CropMouseDown cropId cx cy) =
     (case find (\<lambda>c. crop_id c = cropId) (displayedCrops st) of
        None \<Rightarrow> st
      | Some crop \<Rightarrow> handleCropMouseDown container cx cy crop st)"
| "step container st (ResizeMouseDown cropId handle cx cy) =
     (case find (\<lambda>c. crop_id c = cropId) (displayedCrops st) of
        None \<Rightarrow> st
      | Some crop \<Rightarrow>
          if activeCropId st = Some (crop_id crop) \<and> \<not> isLocked crop
             \<and> handle \<in> {ResizeNW, ResizeNE, ResizeSW, ResizeSE}
          then handleResizeMouseDown container cx cy crop handle st else st)"
| "step container st (WindowMouseMove cx cy) =
     (if interaction st = None then st else handleWindowMouseMove container cx cy st)"
| "step container st (WindowMouseUp cx cy newId) =
     (if interaction st = None then st else handleWindowMouseUp container cx cy newId st)"
| "step container st (KeyDown key) = handleKeyDown key st"

definition run :: "DOMRect option \<Rightarrow> CropperState \<Rightarrow> Event list \<Rightarrow> CropperState" where
  "run container st events = foldl (step container) st events"

text \<open>The invariant of a region stated by the data model (percentages of the owner).\<close>

definition regionInBounds :: "CropRegion \<Rightarrow> bool" where
  "regionInBounds c =
     (0 \<le> crop_x c \<and> 0 \<le> crop_y c \<and> crop_x c + crop_width c \<le> 100
        \<and> crop_y c + crop_height c \<le> 100 \<and> crop_width c \<ge> 1 \<and> crop_height c \<ge> 1)"

text \<open>
  The corner diagonally opposite a resize handle, as a point of the percentage plane:
  the handle \<open>se\<close> drags the bottom-right corner and leaves the top-left one, and so on.
\<close>

fun oppositeCorner :: "InteractionMode \<Rightarrow> CropRegion \<Rightarrow> real \<times> real" where
  "oppositeCorner ResizeSE c = (crop_x c, crop_y c)"
| "oppositeCorner ResizeSW c = (crop_x c + crop_width c, crop_y c)"
| "oppositeCorner ResizeNE c = (crop_x c, crop_y c + crop_height c)"
| "oppositeCorner ResizeNW c = (crop_x c + crop_width c, crop_y c + crop_height c)"
| "oppositeCorner m c = (crop_x c, crop_y c)"

section \<open>Asset graph (\<open>App.tsx\<close>)\<close>

text \<open>
  The part of the state of \<open>App\<close> that the handlers below read or write. A
  JavaScript \<open>Set\<close> keeps its elements in insertion order: \<open>selectedLibraryIds\<close> is the
  list of its elements in that order, without duplicates, so that the order in which
  the user selected the assets is part of the state; \<open>has\<close> is membership in the list.
  Of \<open>expandedGroupIds\<close> the handlers below only add an element, and it is a HOL set.
\<close>

record AppState =
  layers :: "ImageLayer list"
  groups :: "AssetGroup list"
  stitchItems :: "StitchItem list"
  activeAssetId :: "string option"
  selectedLibraryIds :: "string list"
  isSelectionMode :: bool
  expandedGroupIds :: "string set"
  activeMenuGroupId :: "string option"

text \<open>The decimal digits of a number, for the template literal \<open>`Group ${n}`\<close>.\<close>

fun showNat :: "nat \<Rightarrow> string" where
  "showNat n = (if n < 10 then [''0123456789'' ! n]
                else showNat (n div 10) @ [''0123456789'' ! (n mod 10)])"

declare showNat.simps [simp del]

text \<open>
  \<open>toggleSelection\<close> copies the set and deletes the id if it is there, else adds it
  behind the others.
\<close>

definition toggleSelection :: "string \<Rightarrow> AppState \<Rightarrow> AppState" where
  "toggleSelection ident st =
     st\<lparr>selectedLibraryIds :=
          (if ident \<in> set (selectedLibraryIds st) then removeAll ident (selectedLibraryIds st)
           else selectedLibraryIds st @ [ident])\<rparr>"

text \<open>\<open>newId\<close> is the \<open>crypto.randomUUID()\<close> of the new group.\<close>

definition createGroupFromLayers :: "string \<Rightarrow> string list \<Rightarrow> AppState \<Rightarrow> AppState" where
  "createGroupFromLayers newId ids st =
     (let newGroup = \<lparr>group_id = newId,
                      group_name = ''Group '' @ showNat (length (groups st) + 1),
                      layerIds = ids, group_crops = [], parentGroupId = None\<rparr>
      in st\<lparr>groups := groups st @ [newGroup],
             layers := map (\<lambda>l. if layer_id l \<in> set ids
                                 then l\<lparr>groupId := Some (group_id newGroup)\<rparr> else l)
                           (layers st),
             expandedGroupIds := insert (group_id newGroup) (expandedGroupIds st),
             activeAssetId := Some (group_id newGroup)\<rparr>)"

definition handleCreateGroup :: "string \<Rightarrow> AppState \<Rightarrow> AppState" where
  "handleCreateGroup newId st =
     (let selectedLayers =
            filter (\<lambda>l. layer_id l \<in> set (selectedLibraryIds st) \<and> \<not> truthy (groupId l)) (layers st)
      in if length selectedLayers < 2 then st
         else (createGroupFromLayers newId (map layer_id selectedLayers) st)
                \<lparr>selectedLibraryIds := [], isSelectionMode := False\<rparr>)"

text \<open>
  The recursive helper \<open>getSubGroups\<close> of \<open>handleDeleteItem\<close>. JavaScript's recursion
  does not return when the \<open>parentGroupId\<close> links below \<open>pId\<close> form a cycle, so the
  function carries a bound on the recursion depth and \<open>None\<close> means that the bound
  was reached.
\<close>

fun getSubGroups :: "nat \<Rightarrow> AssetGroup list \<Rightarrow> string \<Rightarrow> string list option" where
  "getSubGroups 0 gs pId = None"
| "getSubGroups (Suc depth) gs pId =
     (let children = filter (\<lambda>g. parentGroupId g = Some pId) gs
      in map_option (\<lambda>subs. pId # concat subs)
           (those (map (\<lambda>c. getSubGroups depth gs (group_id c)) children)))"

datatype ItemType = GroupItem | LayerItem

definition handleDeleteItem :: "nat \<Rightarrow> string \<Rightarrow> ItemType \<Rightarrow> AppState \<Rightarrow> AppState option" where
  "handleDeleteItem depth ident ty st =
     (if ty = GroupItem then
        (case getSubGroups depth (groups st) ident of
           None \<Rightarrow> None
         | Some allGroupIds \<Rightarrow>
             (let allLayerIds =
                    set (concat (map layerIds
                                   (filter (\<lambda>g. group_id g \<in> set allGroupIds) (groups st))))
              in Some (st\<lparr>groups := filter (\<lambda>g. group_id g \<notin> set allGroupIds) (groups st),
                          layers := filter (\<lambda>l. layer_id l \<notin> allLayerIds) (layers st),
                          activeAssetId :=
                            (if truthy (activeAssetId st)
                                \<and> (the (activeAssetId st) \<in> set allGroupIds
                                     \<or> the (activeAssetId st) \<in> allLayerIds)
                             then None else activeAssetId st),
                          activeMenuGroupId := None\<rparr>)))
      else
        Some (st\<lparr>layers := filter (\<lambda>l. layer_id l \<noteq> ident) (layers st),
                  groups := map (\<lambda>g. g\<lparr>layerIds := filter (\<lambda>lid. lid \<noteq> ident) (layerIds g)\<rparr>)
                                (groups st),
                  activeAssetId := (if activeAssetId st = Some ident then None
                                    else activeAssetId st),
                  activeMenuGroupId := None\<rparr>))"

text \<open>\<open>newId\<close> is the \<open>crypto.randomUUID()\<close> of the new queue item.\<close>

definition handleAddToStitch :: "string \<Rightarrow> string \<Rightarrow> string \<Rightarrow> AppState \<Rightarrow> AppState" where
  "handleAddToStitch newId lid cid st =
     (let updatedLayers =
            map (\<lambda>l. if layer_id l \<noteq> lid then l
                      else l\<lparr>layer_crops :=
                               map (\<lambda>c. if crop_id c = cid then c\<lparr>isStitched := True\<rparr> else c)
                                   (layer_crops l)\<rparr>)
                (layers st);
          found = (\<exists>l \<in> set (layers st). layer_id l = lid);
          newItem = \<lparr>item_id = newId, item_layerId = lid, item_cropId = cid\<rparr>
      in if found then
           st\<lparr>layers := updatedLayers, stitchItems := stitchItems st @ [newItem]\<rparr>
         else
           (case find (\<lambda>g. group_id g = lid) (groups st) of
              None \<Rightarrow> st
            | Some g0 \<Rightarrow>
                st\<lparr>groups :=
                     map (\<lambda>g. if group_id g \<noteq> lid then g
                               else g\<lparr>group_crops :=
                                       map (\<lambda>c. if crop_id c = cid
                                                 then c\<lparr>isStitched := True\<rparr> else c)
                                           (group_crops g)\<rparr>)
                         (groups st),
                   stitchItems := stitchItems st @ [newItem]\<rparr>))"

section \<open>Reordering (\<open>views/StitchView.tsx\<close>, \<open>App.tsx\<close>)\<close>









section \<open>Notions used in the statements\<close>












text \<open>
  A container of 800 with rows of 100 and no spacing, and three images of 800 by 300
  followed by one of 300 by 300: over the reals the first three would fill the
  container exactly.
\<close>

definition tightSettings :: Settings where
  "tightSettings =
     \<lparr>containerWidth = 800, targetRowHeight = 100, spacing = 0, backgroundColor = ''#ffffff''\<rparr>"

definition fourImages :: "SmartStitchImage list" where
  "fourImages =
     [\<lparr>ss_id = ''p'', ss_dataUrl = ''P'', ss_width = 800, ss_height = 300\<rparr>,
      \<lparr>ss_id = ''q'', ss_dataUrl = ''Q'', ss_width = 800, ss_height = 300\<rparr>,
      \<lparr>ss_id = ''r'', ss_dataUrl = ''R'', ss_width = 800, ss_height = 300\<rparr>,
      \<lparr>ss_id = ''t'', ss_dataUrl = ''T'', ss_width = 300, ss_height = 300\<rparr>]"

definition fourRow :: "RowItem list" where
  "fourRow =
     [\<lparr>ri_img = fourImages ! 0, aspectRatio = 6004799503160661 / 2 ^ 51,
       scaledWidth = 2345624805922133 / 2 ^ 43\<rparr>,
      \<lparr>ri_img = fourImages ! 1, aspectRatio = 6004799503160661 / 2 ^ 51,
       scaledWidth = 2345624805922133 / 2 ^ 43\<rparr>,
      \<lparr>ri_img = fourImages ! 2, aspectRatio = 6004799503160661 / 2 ^ 51,
       scaledWidth = 2345624805922133 / 2 ^ 43\<rparr>,
      \<lparr>ri_img = fourImages ! 3, aspectRatio = 1, scaledWidth = 100\<rparr>]"


text \<open>The two events delivered by the window listeners.\<close>

fun pointerEvent :: "Event \<Rightarrow> bool" where
  "pointerEvent (WindowMouseMove cx cy) = True"
| "pointerEvent (WindowMouseUp cx cy newId) = True"
| "pointerEvent e = False"

text \<open>A cropper at rest on a layer, a layer without regions and a container of 200 by 100 pixels.\<close>

definition idleCropper :: "ImageLayer \<Rightarrow> CropperState" where
  "idleCropper l =
     \<lparr>layer = l, activeCropId = None, optimisticCrop = None, interaction = None,
      tempSelection = None\<rparr>"

definition blankLayer :: ImageLayer where
  "blankLayer =
     \<lparr>layer_id = ''L1'', groupId = None, layer_name = ''photo.png'', layer_src = ''data:,'',
      layer_width = 200, layer_height = 100, layer_crops = []\<rparr>"

definition container200 :: DOMRect where
  "container200 = \<lparr>rect_left = 0, rect_top = 0, rect_width = 200, rect_height = 100\<rparr>"

text \<open>The same container placed at (100, 100) in the window.\<close>

definition offsetContainer :: DOMRect where
  "offsetContainer = \<lparr>rect_left = 100, rect_top = 100, rect_width = 200, rect_height = 100\<rparr>"

definition region :: "string \<Rightarrow> real \<Rightarrow> real \<Rightarrow> real \<Rightarrow> real \<Rightarrow> bool \<Rightarrow> CropRegion" where
  "region ident x y w h locked =
     \<lparr>crop_id = ident, crop_x = x, crop_y = y, crop_width = w, crop_height = h,
      isLocked = locked, replacementSrc = None, isStitched = False\<rparr>"

text \<open>A region list in which every region with the id \<open>cid\<close> carries the queued flag.\<close>

definition flagged :: "string \<Rightarrow> CropRegion list \<Rightarrow> CropRegion list" where
  "flagged cid crops = map (\<lambda>c. if crop_id c = cid then c\<lparr>isStitched := True\<rparr> else c) crops"

text \<open>
  The ids of the groups below \<open>anc\<close>: \<open>anc\<close> itself and the id of every group whose
  \<open>parentGroupId\<close> is such an id.
\<close>

inductive_set descendants :: "AssetGroup list \<Rightarrow> string \<Rightarrow> string set"
  for gs :: "AssetGroup list" and anc :: string where
    self: "anc \<in> descendants gs anc"
  | child: "g \<in> set gs \<Longrightarrow> parentGroupId g = Some p \<Longrightarrow> p \<in> descendants gs anc
              \<Longrightarrow> group_id g \<in> descendants gs anc"

text \<open>The ids listed as members by the groups below \<open>anc\<close>.\<close>

definition ownedLayerIds :: "AssetGroup list \<Rightarrow> string \<Rightarrow> string set" where
  "ownedLayerIds gs anc =
     (\<Union>g \<in> {g \<in> set gs. group_id g \<in> descendants gs anc}. set (layerIds g))"

text \<open>An application state holding a library and nothing else; plain layers and groups.\<close>

definition libraryOf :: "ImageLayer list \<Rightarrow> AssetGroup list \<Rightarrow> AppState" where
  "libraryOf ls gs =
     \<lparr>layers = ls, groups = gs, stitchItems = [], activeAssetId = None,
      selectedLibraryIds = [], isSelectionMode = False, expandedGroupIds = {},
      activeMenuGroupId = None\<rparr>"

definition plainLayer :: "string \<Rightarrow> string option \<Rightarrow> CropRegion list \<Rightarrow> ImageLayer" where
  "plainLayer ident g crops =
     \<lparr>layer_id = ident, groupId = g, layer_name = ident, layer_src = ''data:,'',
      layer_width = 200, layer_height = 100, layer_crops = crops\<rparr>"

definition plainGroup :: "string \<Rightarrow> string list \<Rightarrow> string option \<Rightarrow> AssetGroup" where
  "plainGroup ident members parent =
     \<lparr>group_id = ident, group_name = ident, layerIds = members, group_crops = [],
      parentGroupId = parent\<rparr>"

text \<open>
  The library of the specification's example: a group \<open>G\<close> with two nested subgroups,
  each of the three owning a layer, besides a group \<open>H\<close> with its layer and a free layer.
\<close>

definition nestedLibrary :: AppState where
  "nestedLibrary =
     (libraryOf
        [plainLayer ''a'' (Some ''G'') [], plainLayer ''b'' (Some ''S1'') [],
         plainLayer ''c'' (Some ''S2'') [], plainLayer ''d'' (Some ''H'') [],
         plainLayer ''e'' None []]
        [plainGroup ''G'' [''a''] None, plainGroup ''S1'' [''b''] (Some ''G''),
         plainGroup ''S2'' [''c''] (Some ''G''), plainGroup ''H'' [''d''] None])
       \<lparr>activeAssetId := Some ''b''\<rparr>"

section \<open>Properties of the rounding\<close>

text \<open>\<open>exponentOf\<close> is the binary exponent, and the only one.\<close>

lemma exponentOf_bounds:
  assumes "0 < x"
  shows "2 powi exponentOf x \<le> x" and "x < 2 powi (exponentOf x + 1)"
proof -
  have both: "2 powi exponentOf x \<le> x \<and> x < 2 powi (exponentOf x + 1)"
  proof (cases "1 \<le> x")
    case True
    define n where "n = nat \<lfloor>x\<rfloor>"
    have n: "0 < n" "real n \<le> x" "x < real n + 1"
      using True by (simp_all add: n_def)
    define f where "f = floorlog 2 n"
    from floorlog_bounds [of n 2] n(1)
    have fb: "2 ^ (f - 1) \<le> n" "n < 2 ^ f" by (simp_all add: f_def)
    have f1: "1 \<le> f" using fb(2) n(1) by (cases f) auto
    have e: "exponentOf x = int f - 1"
      using True by (simp add: exponentOf_def n_def f_def)
    have "2 powi (int f - 1) = (2::real) ^ (f - 1)"
      using f1 by (simp add: power_int_def nat_diff_distrib')
    moreover have "(2::real) ^ (f - 1) \<le> real n"
      using fb(1) by (metis of_nat_le_iff of_nat_numeral of_nat_power)
    moreover have "real n + 1 \<le> 2 ^ f"
    proof -
      from fb(2) have "n + 1 \<le> 2 ^ f" by simp
      then have "real (n + 1) \<le> real (2 ^ f)" by (rule of_nat_mono)
      then show ?thesis by simp
    qed
    moreover have "2 powi (int f - 1 + 1) = (2::real) ^ f" by simp
    ultimately show ?thesis
      unfolding e using n(2,3) by linarith
  next
    case False
    define y where "y = 1 / x"
    have y: "1 < y" using False assms by (simp add: y_def)
    define m where "m = nat (\<lceil>y\<rceil> - 1)"
    have m: "0 < m" "real m < y" "y \<le> real m + 1"
      using y by (simp_all add: m_def) linarith+
    define k where "k = floorlog 2 m"
    from floorlog_bounds [of m 2] m(1)
    have kb: "2 ^ (k - 1) \<le> m" "m < 2 ^ k" by (simp_all add: k_def)
    have k1: "1 \<le> k" using kb(2) m(1) by (cases k) auto
    have e: "exponentOf x = - int k"
      using False by (simp add: exponentOf_def m_def k_def y_def)
    have up: "y \<le> 2 ^ k"
    proof -
      from kb(2) have "m + 1 \<le> 2 ^ k" by simp
      then have "real (m + 1) \<le> real (2 ^ k)" by (rule of_nat_mono)
      with m(3) show ?thesis by simp
    qed
    have lo: "(2::real) ^ (k - 1) < y"
    proof -
      have "(2::real) ^ (k - 1) \<le> real m"
        using kb(1) by (metis of_nat_le_iff of_nat_numeral of_nat_power)
      with m(2) show ?thesis by linarith
    qed
    have x: "x = 1 / y" using assms by (simp add: y_def)
    have a: "2 powi (- int k) = 1 / (2::real) ^ k"
      by (simp add: power_int_minus_divide)
    have b: "2 powi (- int k + 1) = 1 / (2::real) ^ (k - 1)"
    proof -
      have "- int k + 1 = - int (k - 1)" using k1 by simp
      then show ?thesis by (simp only: power_int_minus_divide power_int_of_nat)
    qed
    have "1 / (2::real) ^ k \<le> 1 / y"
      using up y by (intro divide_left_mono) simp_all
    moreover have "1 / y < 1 / (2::real) ^ (k - 1)"
      using lo y by (intro divide_strict_left_mono) simp_all
    ultimately have "2 powi (- int k) \<le> x" "x < 2 powi (- int k + 1)"
      unfolding a b x by simp_all
    then show ?thesis
      unfolding e by simp
  qed
  from both show "2 powi exponentOf x \<le> x" and "x < 2 powi (exponentOf x + 1)" by simp_all
qed

lemma exponentOf_unique:
  assumes "0 < x" and lo: "2 powi e \<le> x" and hi: "x < 2 powi (e + 1)"
  shows "exponentOf x = e"
proof (rule antisym)
  show "exponentOf x \<le> e"
  proof (rule ccontr)
    assume "\<not> exponentOf x \<le> e"
    then have "e + 1 \<le> exponentOf x" by simp
    then have "(2::real) powi (e + 1) \<le> 2 powi exponentOf x"
      by (intro power_int_increasing) simp_all
    with exponentOf_bounds(1) [OF assms(1)] hi show False by linarith
  qed
  show "e \<le> exponentOf x"
  proof (rule ccontr)
    assume "\<not> e \<le> exponentOf x"
    then have "exponentOf x + 1 \<le> e" by simp
    then have "(2::real) powi (exponentOf x + 1) \<le> 2 powi e"
      by (intro power_int_increasing) simp_all
    with exponentOf_bounds(2) [OF assms(1)] lo show False by linarith
  qed
qed

text \<open>
  Rounding to an integer moves a number by at most one half, and rounding to a double
  by at most \<open>2\<^sup>-\<^sup>5\<^sup>3\<close> of its magnitude.
\<close>

lemma roundEven_error: "\<bar>of_int (roundEven x) - x\<bar> \<le> 1/2"
  unfolding roundEven_def Let_def by (simp add: abs_le_iff)

lemma roundEven_of_int [simp]: "roundEven (of_int k) = k"
  by (simp add: roundEven_def)

lemma fl_0 [simp]: "fl 0 = 0"
  by (simp add: fl_def)

lemma fl_eval:
  assumes "x \<noteq> 0" and "2 powi e \<le> \<bar>x\<bar>" and "\<bar>x\<bar> < 2 powi (e + 1)"
  shows "fl x = sgn x * of_int (roundEven (\<bar>x\<bar> / 2 powi (e - 52))) * 2 powi (e - 52)"
proof -
  have "exponentOf \<bar>x\<bar> = e"
    using assms by (intro exponentOf_unique) simp_all
  with assms(1) show ?thesis by (simp add: fl_def Let_def)
qed

lemma fl_error: "\<bar>fl x - x\<bar> \<le> 2 powi (-53) * \<bar>x\<bar>"
proof (cases "x = 0")
  case True
  then show ?thesis by simp
next
  case False
  define e where "e = exponentOf \<bar>x\<bar>"
  define ulp :: real where "ulp = 2 powi (e - 52)"
  define m where "m = \<bar>x\<bar> / ulp"
  have pos: "0 < \<bar>x\<bar>" using False by simp
  have ulp: "0 < ulp" by (simp add: ulp_def)
  have lo: "2 powi e \<le> \<bar>x\<bar>" unfolding e_def by (rule exponentOf_bounds(1) [OF pos])
  have f: "fl x = sgn x * of_int (roundEven m) * ulp"
    using False by (simp add: fl_def e_def ulp_def m_def Let_def)
  have x: "x = sgn x * m * ulp"
    using ulp by (simp add: m_def sgn_mult_abs mult.assoc [symmetric]) 
  have "fl x - x = sgn x * (of_int (roundEven m) - m) * ulp"
    unfolding f by (subst (2) x) (simp add: algebra_simps)
  then have "\<bar>fl x - x\<bar> = \<bar>of_int (roundEven m) - m\<bar> * ulp"
    using ulp False by (simp add: abs_mult abs_sgn_eq)
  also have "\<dots> \<le> 1/2 * ulp"
    using roundEven_error [of m] ulp by (intro mult_right_mono) simp_all
  also have "\<dots> = 2 powi (-53) * 2 powi e"
  proof -
    have "(2::real) powi (e - 52) = 2 powi e * 2 powi (-52)"
      by (simp add: power_int_diff power_int_minus_divide)
    then show ?thesis unfolding ulp_def by (simp add: power_int_minus_divide)
  qed
  also have "\<dots> \<le> 2 powi (-53) * \<bar>x\<bar>"
    using lo by (intro mult_left_mono) simp_all
  finally show ?thesis .
qed


text \<open>
  A number \<open>k \<times> 2\<^sup>j\<close> with \<open>\<bar>k\<bar> < 2\<^sup>5\<^sup>3\<close> is a double, and \<open>fl\<close> leaves it alone: so it does
  the integers below \<open>2\<^sup>5\<^sup>3\<close> and their halves.
\<close>

lemma fl_exact:
  assumes "\<bar>k\<bar> < 2 ^ 53"
  shows "fl (of_int k * 2 powi j) = of_int k * 2 powi j"
proof (cases "k = 0")
  case True
  then show ?thesis by simp
next
  case False
  define x :: real where "x = of_int k * 2 powi j"
  have x0: "x \<noteq> 0" using False by (simp add: x_def)
  have ax: "\<bar>x\<bar> = of_int \<bar>k\<bar> * 2 powi j"
    by (simp add: x_def abs_mult)
  define e where "e = exponentOf \<bar>x\<bar>"
  have lo: "2 powi e \<le> \<bar>x\<bar>"
    unfolding e_def using x0 by (intro exponentOf_bounds(1)) simp
  have "\<bar>x\<bar> < 2 ^ 53 * 2 powi j"
    unfolding ax using assms
    by (intro mult_strict_right_mono) (simp_all add: of_int_less_numeral_power_cancel_iff)
  also have "\<dots> = 2 powi (53 + j)"
    by (simp add: power_int_add)
  finally have "(2::real) powi e < 2 powi (53 + j)" using lo by simp
  then have "e < 53 + j"
    using power_int_increasing [of "53 + j" e "2::real"] by (cases "e < 53 + j") simp_all
  define n where "n = nat (j - (e - 52))"
  have n: "j - (e - 52) = int n"
    using \<open>e < 53 + j\<close> by (simp add: n_def)
  have "\<bar>x\<bar> / 2 powi (e - 52) = of_int \<bar>k\<bar> * 2 powi (j - (e - 52))"
    unfolding ax by (simp add: power_int_diff)
  also have "\<dots> = of_int (\<bar>k\<bar> * 2 ^ n)"
    unfolding n by simp
  finally have q: "\<bar>x\<bar> / 2 powi (e - 52) = of_int (\<bar>k\<bar> * 2 ^ n)" .
  then have r: "roundEven (\<bar>x\<bar> / 2 powi (e - 52)) = \<bar>k\<bar> * 2 ^ n"
    by (simp only: roundEven_of_int)
  have "fl x = sgn x * of_int (\<bar>k\<bar> * 2 ^ n) * 2 powi (e - 52)"
    using x0 r by (simp add: fl_def Let_def e_def)
  also have "of_int (\<bar>k\<bar> * 2 ^ n) = \<bar>x\<bar> / 2 powi (e - 52)"
    by (rule q [symmetric])
  also have "sgn x * (\<bar>x\<bar> / 2 powi (e - 52)) * 2 powi (e - 52) = x"
    by (simp add: sgn_mult_abs)
  finally show ?thesis unfolding x_def .
qed

lemma fl_of_int: "\<bar>k\<bar> < 2 ^ 53 \<Longrightarrow> fl (of_int k) = of_int k"
  using fl_exact [of k 0] by simp

lemma fl_numeral [simp]:
  "(numeral n :: int) < 9007199254740992 \<Longrightarrow> fl (numeral n) = numeral n"
  using fl_of_int [of "numeral n"] by simp

lemma fl_1 [simp]: "fl 1 = 1"
  using fl_of_int [of 1] by simp

lemma fl_half: "(numeral n :: int) < 9007199254740992 \<Longrightarrow> fl (numeral n / 2) = numeral n / 2"
  using fl_exact [of "numeral n" "-1"] by (simp add: power_int_minus_divide)

lemma fl_lower:
  assumes "0 \<le> x"
  shows "(1 - 2 powi (-53)) * x \<le> fl x"
proof -
  have "\<bar>fl x - x\<bar> \<le> 2 powi (-53) * x" using fl_error [of x] assms by simp
  then have "x - fl x \<le> 2 powi (-53) * x" by linarith
  then show ?thesis by (simp add: algebra_simps)
qed

lemma fl_upper:
  assumes "0 \<le> x"
  shows "fl x \<le> (1 + 2 powi (-53)) * x"
proof -
  have "\<bar>fl x - x\<bar> \<le> 2 powi (-53) * x" using fl_error [of x] assms by simp
  then have "fl x - x \<le> 2 powi (-53) * x" by linarith
  then show ?thesis by (simp add: algebra_simps)
qed

lemma fl_pos: "0 < x \<Longrightarrow> 0 < fl x"
proof -
  assume x: "0 < x"
  have "(0::real) < 1 - 2 powi (-53)" by (simp add: power_int_minus_divide)
  then have "0 < (1 - 2 powi (-53)) * x" using x by simp
  with fl_lower [of x] x show ?thesis by linarith
qed

lemma fl_nonneg: "0 \<le> x \<Longrightarrow> 0 \<le> fl x"
  using fl_pos [of x] by (cases "x = 0") simp_all

text \<open>
  The double next to a positive fraction \<open>a / b\<close>, by integer division: \<open>n\<close> is the
  number of binary digits behind the point that a double of this size has.
\<close>

lemma roundEven_divide:
  assumes "0 < b"
  shows "roundEven (of_int a / of_int b) =
           (if 2 * (a mod b) < b then a div b
            else if b < 2 * (a mod b) then a div b + 1
            else if even (a div b) then a div b else a div b + 1)"
proof -
  have f: "\<lfloor>real_of_int a / real_of_int b\<rfloor> = a div b"
    by (rule floor_divide_of_int_eq)
  have "real_of_int a = real_of_int (a div b) * real_of_int b + real_of_int (a mod b)"
    by (metis div_mult_mod_eq of_int_add of_int_mult)
  then have d: "real_of_int a / real_of_int b - real_of_int (a div b) = real_of_int (a mod b) / real_of_int b"
    using assms by (simp add: field_simps)
  have lt: "(real_of_int (a mod b) / real_of_int b < 1 / 2) = (2 * (a mod b) < b)"
    using assms by (simp add: field_simps) linarith
  have gt: "(1 / 2 < real_of_int (a mod b) / real_of_int b) = (b < 2 * (a mod b))"
    using assms by (simp add: field_simps) linarith
  show ?thesis
    unfolding roundEven_def Let_def f d lt gt by simp
qed

lemma fl_ratio:
  assumes "0 < a" "0 < b" and lo: "b * 2 ^ 52 \<le> a * 2 ^ n" and hi: "a * 2 ^ n < b * 2 ^ 53"
  shows "fl (of_int a / of_int b) = of_int (roundEven (of_int (a * 2 ^ n) / of_int b)) / 2 ^ n"
proof -
  define x :: real where "x = of_int a / of_int b"
  have x: "0 < x" using assms by (simp add: x_def)
  have p: "(2::real) powi (52 - int n) = 2 ^ 52 / 2 ^ n"
    by (simp add: power_int_diff)
  have p1: "(2::real) powi (52 - int n + 1) = 2 ^ 53 / 2 ^ n"
    by (simp add: power_int_diff power_int_add)
  have "real_of_int (b * 2 ^ 52) \<le> real_of_int (a * 2 ^ n)" using lo by (rule of_int_le_iff [THEN iffD2])
  then have l: "2 powi (52 - int n) \<le> \<bar>x\<bar>"
    unfolding p x_def using assms(1,2) by (simp add: field_simps)
  have "real_of_int (a * 2 ^ n) < real_of_int (b * 2 ^ 53)" using hi by (rule of_int_less_iff [THEN iffD2])
  then have h: "\<bar>x\<bar> < 2 powi (52 - int n + 1)"
    unfolding p1 x_def using assms(1,2) by (simp add: field_simps)
  have u: "(2::real) powi (52 - int n - 52) = 1 / 2 ^ n"
    by (simp add: power_int_minus_divide)
  have "fl x = sgn x * of_int (roundEven (\<bar>x\<bar> / 2 powi (52 - int n - 52))) * 2 powi (52 - int n - 52)"
    using x l h by (intro fl_eval) simp_all
  also have "\<dots> = of_int (roundEven (x * 2 ^ n)) / 2 ^ n"
    unfolding u using x by simp
  also have "x * 2 ^ n = of_int (a * 2 ^ n) / of_int b"
    by (simp add: x_def)
  finally show ?thesis unfolding x_def .
qed






lemma fl_le_scaled:
  assumes "0 \<le> x"
  shows "fl x \<le> x * (101 / 100)"
proof -
  have "(1 + 2 powi (-53)) * x \<le> (101 / 100) * x"
    using assms by (intro mult_right_mono) (simp_all add: power_int_minus_divide)
  with fl_upper [OF assms] show ?thesis by (simp add: mult.commute)
qed

section \<open>Properties of the pixel composition\<close>

subsection \<open>Horizontal stitching\<close>

text \<open>
  The quotient 29 / 7 is no double: it is rounded up, and seven times the rounded
  quotient is rounded up once more, to the double next above 29.
\<close>

lemma fl_29_7: "fl (29 / 7) = 4664442471205157 / 1125899906842624"
  using fl_ratio [of 29 7 50] roundEven_divide [of 7 "29 * 2 ^ 50"] by simp

lemma fl_29_7_times: "fl (32651097298436099 / 1125899906842624) = 8162774324609025 / 281474976710656"
  using fl_ratio [of 32651097298436099 "2 ^ 50" 48]
        roundEven_divide [of "2 ^ 50" "32651097298436099 * 2 ^ 48"] by simp

lemma fl_29_7_sum: "fl (8162774324609025 / 281474976710656) = 8162774324609025 / 281474976710656"
  using fl_exact [of 8162774324609025 "-48"] by (simp add: power_int_minus_divide)

text \<open>
  Claim C6 fails on the code. A single image of 29 by 7 pixels already has the target
  height, so that its scaled width \<open>targetHeight \<times> (srcWidth / srcHeight)\<close> is 29 and
  the ceiling of the sum of the scaled widths is 29. The code computes the width as
  \<open>(29 / 7) * 7\<close> in doubles, which is \<open>29 + 2\<^sup>-\<^sup>4\<^sup>8\<close>, and \<open>Math.ceil\<close> makes the canvas
  30 pixels wide: one column more than the image that is drawn into it.
\<close>

theorem stitch_width_exceeds_sources:
  "generateStitchedCanvas True [\<lparr>img_src = ''A'', img_width = 29, img_height = 7\<rparr>]
     = Inr (Some \<lparr>sc_width = 30, sc_height = 7,
                  sc_draws = [\<lparr>dc_img = \<lparr>img_src = ''A'', img_width = 29, img_height = 7\<rparr>,
                               dc_x = 0, dc_y = 0,
                               dc_width = 8162774324609025 / 2 ^ 48, dc_height = 7\<rparr>]\<rparr>)
   \<and> \<lceil>7 * (29 / 7 :: real)\<rceil> = 29"
  by (simp add: generateStitchedCanvas_def dimensions_def totalWidth_def Let_def
        fl_29_7 fl_29_7_times fl_29_7_sum)

text \<open>
  The same with two images, of 1000 by 480 and of 500 by 480 pixels: no scaling is
  needed, the widths add up to 1500, and the canvas is 1501 pixels wide.
\<close>

lemma fl_25_12: "fl (25 / 12) = 4691249611844267 / 2251799813685248"
  using fl_ratio [of 25 12 51] roundEven_divide [of 12 "25 * 2 ^ 51"] by simp

lemma fl_25_12_times: "fl (70368744177664005 / 70368744177664) = 8796093022208001 / 8796093022208"
  using fl_ratio [of 70368744177664005 "2 ^ 46" 43]
        roundEven_divide [of "2 ^ 46" "70368744177664005 * 2 ^ 43"] by simp

lemma fl_25_24: "fl (25 / 24) = 4691249611844267 / 4503599627370496"
  using fl_ratio [of 25 24 52] roundEven_divide [of 24 "25 * 2 ^ 52"] by simp

lemma fl_25_24_times: "fl (70368744177664005 / 140737488355328) = 8796093022208001 / 17592186044416"
  using fl_ratio [of 70368744177664005 "2 ^ 47" 44]
        roundEven_divide [of "2 ^ 47" "70368744177664005 * 2 ^ 44"] by simp

lemma fl_two_sum1: "fl (8796093022208001 / 8796093022208) = 8796093022208001 / 8796093022208"
  using fl_exact [of 8796093022208001 "-43"] by (simp add: power_int_minus_divide)

lemma fl_two_sum2: "fl (26388279066624003 / 17592186044416) = 6597069766656001 / 4398046511104"
  using fl_ratio [of 26388279066624003 "2 ^ 44" 42]
        roundEven_divide [of "2 ^ 44" "26388279066624003 * 2 ^ 42"] by simp

lemma stitch_two_images_width:
  "generateStitchedCanvas True
     [\<lparr>img_src = ''A'', img_width = 1000, img_height = 480\<rparr>,
      \<lparr>img_src = ''B'', img_width = 500, img_height = 480\<rparr>]
     = Inr (Some \<lparr>sc_width = 1501, sc_height = 480,
                  sc_draws = [\<lparr>dc_img = \<lparr>img_src = ''A'', img_width = 1000, img_height = 480\<rparr>,
                               dc_x = 0, dc_y = 0,
                               dc_width = 8796093022208001 / 2 ^ 43, dc_height = 480\<rparr>,
                              \<lparr>dc_img = \<lparr>img_src = ''B'', img_width = 500, img_height = 480\<rparr>,
                               dc_x = 8796093022208001 / 2 ^ 43, dc_y = 0,
                               dc_width = 8796093022208001 / 2 ^ 44, dc_height = 480\<rparr>]\<rparr>)"
  by (simp add: generateStitchedCanvas_def dimensions_def totalWidth_def Let_def
        fl_25_12 fl_25_12_times fl_25_24 fl_25_24_times fl_two_sum1 fl_two_sum2)

text \<open>
  In the example of the specification the two roundings cancel: 800 / 600 is rounded,
  and 600 times the rounded quotient is rounded to 800. The canvas is 1200 by 600.
\<close>

lemma fl_4_3: "fl (4 / 3) = 6004799503160661 / 4503599627370496"
  using fl_ratio [of 4 3 52] roundEven_divide [of 3 "4 * 2 ^ 52"] by simp

lemma fl_4_3_times: "fl (450359962737049575 / 562949953421312) = 800"
  using fl_ratio [of 450359962737049575 "2 ^ 49" 43]
        roundEven_divide [of "2 ^ 49" "450359962737049575 * 2 ^ 43"] by simp

lemma fl_2_3: "fl (2 / 3) = 6004799503160661 / 9007199254740992"
  using fl_ratio [of 2 3 53] roundEven_divide [of 3 "2 * 2 ^ 53"] by simp

lemma fl_2_3_times: "fl (450359962737049575 / 1125899906842624) = 400"
  using fl_ratio [of 450359962737049575 "2 ^ 50" 44]
        roundEven_divide [of "2 ^ 50" "450359962737049575 * 2 ^ 44"] by simp

lemma stitch_example_800_400:
  "generateStitchedCanvas True
     [\<lparr>img_src = ''A'', img_width = 800, img_height = 600\<rparr>,
      \<lparr>img_src = ''B'', img_width = 400, img_height = 600\<rparr>]
     = Inr (Some \<lparr>sc_width = 1200, sc_height = 600,
                  sc_draws = [\<lparr>dc_img = \<lparr>img_src = ''A'', img_width = 800, img_height = 600\<rparr>,
                               dc_x = 0, dc_y = 0, dc_width = 800, dc_height = 600\<rparr>,
                              \<lparr>dc_img = \<lparr>img_src = ''B'', img_width = 400, img_height = 600\<rparr>,
                               dc_x = 800, dc_y = 0, dc_width = 400, dc_height = 600\<rparr>]\<rparr>)"
  by (simp add: generateStitchedCanvas_def dimensions_def totalWidth_def Let_def
        fl_4_3 fl_4_3_times fl_2_3 fl_2_3_times)

subsection \<open>Justified layout\<close>

text \<open>
  Claim C5. With \<open>containerWidth = 1200\<close>, \<open>targetRowHeight = 300\<close> and \<open>spacing = 12\<close>,
  three images of aspect ratios 2, 1 and 1.5 are packed into a single row with the
  provisional widths 600, 300 and 450; the row's aggregate aspect ratio is 4.5, the
  exemption of a sparse last row does not apply, and the height of the row is
  recomputed to 256, which is the height of every item of the layout. All numbers of
  the example but the threshold of the exemption are doubles, so that no operation
  rounds.
\<close>

theorem justified_example_row_height:
  assumes a: "ss_width a / ss_height a = 2"
      and b: "ss_width b / ss_height b = 1"
      and c: "ss_width c / ss_height c = 3/2"
      and s: "containerWidth s = 1200" "targetRowHeight s = 300" "spacing s = 12"
  shows "\<exists>row cv. buildRows s [a, b, c] [] [] 0 = [row]
           \<and> map ri_img row = [a, b, c]
           \<and> map scaledWidth row = [600, 300, 450]
           \<and> rowAspectRatio row = 9/2
           \<and> \<not> exempt s True row
           \<and> rowHeight s True row = 256
           \<and> generateSmartStitch True [a, b, c] s = Some cv
           \<and> map li_height (ssc_layout cv) = [256, 256, 256]
           \<and> map li_width (ssc_layout cv) = [512, 256, 384]"
proof -
  let ?row = "[\<lparr>ri_img = a, aspectRatio = 2, scaledWidth = 600\<rparr>,
               \<lparr>ri_img = b, aspectRatio = 1, scaledWidth = 300\<rparr>,
               \<lparr>ri_img = c, aspectRatio = 3/2, scaledWidth = 450\<rparr>]"
  have rows: "buildRows s [a, b, c] [] [] 0 = [?row]"
    unfolding buildRows.simps Let_def a b c s by (simp add: fl_half)
  have asp: "rowAspectRatio ?row = 9/2"
    by (simp add: rowAspectRatio_def fl_half)
  have av: "availableWidth s ?row = 1152"
    by (simp add: availableWidth_def s)
  have ex: "\<not> exempt s True ?row"
  proof -
    have p: "fl (96 / 25) \<le> 96 / 25 * (101 / 100)" "fl (3 / 5) \<le> 3 / 5 * (101 / 100)"
      by (rule fl_le_scaled, simp)+
    have n: "0 \<le> fl (96 / 25)" "0 \<le> fl (3 / 5)"
      by (rule fl_nonneg, simp)+
    have "fl (96 / 25) * fl (3 / 5) \<le> (96 / 25 * (101 / 100)) * (3 / 5 * (101 / 100))"
      using p n by (intro mult_mono) simp_all
    moreover have "fl (fl (96 / 25) * fl (3 / 5)) \<le> fl (96 / 25) * fl (3 / 5) * (101 / 100)"
      using n by (intro fl_le_scaled) simp
    ultimately have "fl (fl (96 / 25) * fl (3 / 5)) \<le> 9 / 2" by simp
    then show ?thesis
      by (simp add: exempt_def asp av s)
  qed
  have rh: "rowHeight s True ?row = 256"
    by (simp add: rowHeight_def ex asp av)
  have "generateSmartStitch True [a, b, c] s =
          Some \<lparr>ssc_width = 1200, ssc_height = 280,
                ssc_layout = layoutRow s 256 12 12 ?row\<rparr>"
    unfolding generateSmartStitch_def rows by (simp add: rh s)
  then show ?thesis
    using rows asp ex rh by (simp add: s)
qed

theorem justified_example_witness:
  "\<exists>cv. generateSmartStitch True
     [\<lparr>ss_id = ''a'', ss_dataUrl = ''A'', ss_width = 600, ss_height = 300\<rparr>,
      \<lparr>ss_id = ''b'', ss_dataUrl = ''B'', ss_width = 300, ss_height = 300\<rparr>,
      \<lparr>ss_id = ''c'', ss_dataUrl = ''C'', ss_width = 450, ss_height = 300\<rparr>]
     \<lparr>containerWidth = 1200, targetRowHeight = 300, spacing = 12, backgroundColor = ''#ffffff''\<rparr>
       = Some cv
     \<and> map li_height (ssc_layout cv) = [256, 256, 256]"
  using justified_example_row_height
     [of "\<lparr>ss_id = ''a'', ss_dataUrl = ''A'', ss_width = 600, ss_height = 300\<rparr>"
         "\<lparr>ss_id = ''b'', ss_dataUrl = ''B'', ss_width = 300, ss_height = 300\<rparr>"
         "\<lparr>ss_id = ''c'', ss_dataUrl = ''C'', ss_width = 450, ss_height = 300\<rparr>"
         "\<lparr>containerWidth = 1200, targetRowHeight = 300, spacing = 12, backgroundColor = ''#ffffff''\<rparr>"]
  by auto





















lemma buildRows_nonempty:
  "images \<noteq> [] \<or> rows \<noteq> [] \<or> currentRow \<noteq> []
     \<Longrightarrow> buildRows s images rows currentRow currentWidth \<noteq> []"
  by (induction images arbitrary: rows currentRow currentWidth) (auto simp: Let_def)










lemma exempt_threshold:
  assumes "0 \<le> x" and "x * (3 / 5) * (104 / 100) \<le> a"
  shows "\<not> a < fl (fl x * fl (6 / 10))"
proof -
  have p: "fl x \<le> x * (101 / 100)" "fl (3 / 5) \<le> 3 / 5 * (101 / 100)"
    using assms(1) by (intro fl_le_scaled, simp)+
  have n: "0 \<le> fl x" "0 \<le> fl (3 / 5)"
    using assms(1) by (intro fl_nonneg, simp)+
  have "fl x * fl (3 / 5) \<le> (x * (101 / 100)) * (3 / 5 * (101 / 100))"
    using p n by (intro mult_mono) simp_all
  moreover have "fl (fl x * fl (3 / 5)) \<le> fl x * fl (3 / 5) * (101 / 100)"
    using n by (intro fl_le_scaled) simp
  ultimately have "fl (fl x * fl (3 / 5)) \<le> x * (3 / 5) * (1030301 / 1000000)" by simp
  moreover have "x * (3 / 5) * (1030301 / 1000000) \<le> x * (3 / 5) * (104 / 100)"
    using assms(1) by (intro mult_left_mono) simp_all
  ultimately show ?thesis using assms(2) by simp
qed






















subsection \<open>The greedy test on doubles\<close>

text \<open>
  With a container of 800, rows of 100 and no spacing, three images of 800 by 300 have
  the provisional widths \<open>100 \<times> (800 / 300)\<close>, which add up to 800 over the reals. In
  doubles each of them is 266.66666666666663 and their sum is 799.9999999999999: the
  test \<open>totalWidthWithSpacing >= containerWidth\<close> fails, the row stays open and takes
  the fourth image too. The canvas is one row of height \<open>fl (800 / 9)\<close>, 88.9, high.
\<close>

lemma fl_8_3: "fl (8 / 3) = 6004799503160661 / 2251799813685248"
  using fl_ratio [of 8 3 51] roundEven_divide [of 3 "8 * 2 ^ 51"] by simp

lemma fl_8_3_scaled: "fl (150119987579016525 / 562949953421312) = 2345624805922133 / 8796093022208"
  using fl_ratio [of 150119987579016525 "2 ^ 49" 44]
        roundEven_divide [of "2 ^ 49" "150119987579016525 * 2 ^ 44"] by simp

lemma fl_four_widths:
  "fl (2345624805922133 / 8796093022208) = 2345624805922133 / 8796093022208"
  "fl (2345624805922133 / 4398046511104) = 2345624805922133 / 4398046511104"
  "fl (7036874417766399 / 8796093022208) = 7036874417766399 / 8796093022208"
  "fl (7916483719987199 / 8796093022208) = 7916483719987199 / 8796093022208"
  using fl_exact [of 2345624805922133 "-43"] fl_exact [of 2345624805922133 "-42"]
        fl_exact [of 7036874417766399 "-43"] fl_exact [of 7916483719987199 "-43"]
  by (simp_all add: power_int_minus_divide)

lemma four_rows: "buildRows tightSettings fourImages [] [] 0 = [fourRow]"
  by (simp add: tightSettings_def fourImages_def fourRow_def Let_def
        fl_8_3 fl_8_3_scaled fl_four_widths)

lemma fl_four_aspects:
  "fl (6004799503160661 / 2251799813685248) = 6004799503160661 / 2251799813685248"
  "fl (6004799503160661 / 1125899906842624) = 6004799503160661 / 1125899906842624"
  using fl_exact [of 6004799503160661 "-51"] fl_exact [of 6004799503160661 "-50"]
  by (simp_all add: power_int_minus_divide)

lemma fl_four_aspect_sum: "fl (18014398509481983 / 2251799813685248) = 8"
  using fl_ratio [of 18014398509481983 "2 ^ 51" 50]
        roundEven_divide [of "2 ^ 51" "18014398509481983 * 2 ^ 50"] by simp

lemma four_aspect: "rowAspectRatio fourRow = 9"
  by (simp add: rowAspectRatio_def fourRow_def fl_four_aspects fl_four_aspect_sum)

lemma four_available: "availableWidth tightSettings fourRow = 800"
  by (simp add: availableWidth_def tightSettings_def fourRow_def)

lemma four_not_exempt: "\<not> exempt tightSettings True fourRow"
proof -
  have t: "targetRowHeight tightSettings = 100" by (simp add: tightSettings_def)
  show ?thesis
    unfolding exempt_def four_aspect four_available t
    using exempt_threshold [of "800 / 100" 9] by simp
qed

lemma fl_800_9: "fl (800 / 9) = 3127499741229511 / 35184372088832"
  using fl_ratio [of 800 9 46] roundEven_divide [of 9 "800 * 2 ^ 46"] by simp

lemma four_rowHeight: "rowHeight tightSettings True fourRow = 3127499741229511 / 35184372088832"
  by (simp add: rowHeight_def four_not_exempt four_aspect four_available fl_800_9)

lemma fl_four_height: "fl (3127499741229511 / 35184372088832) = 3127499741229511 / 35184372088832"
  using fl_exact [of 3127499741229511 "-45"] by (simp add: power_int_minus_divide)

lemma rounding_keeps_row_open:
  "buildRows tightSettings fourImages [] [] 0 = [fourRow]
   \<and> sum_list (map scaledWidth (take 3 fourRow)) = 7036874417766399 / 2 ^ 43
   \<and> sum_list (map scaledWidth (take 3 fourRow)) < containerWidth tightSettings
   \<and> sum_list (map (\<lambda>im. targetRowHeight tightSettings * (ss_width im / ss_height im))
         (take 3 fourImages)) = containerWidth tightSettings
   \<and> ssc_height (the (generateSmartStitch True fourImages tightSettings))
        = 3127499741229511 / 2 ^ 45"
proof (intro conjI)
  show "buildRows tightSettings fourImages [] [] 0 = [fourRow]" by (rule four_rows)
  show "sum_list (map scaledWidth (take 3 fourRow)) = 7036874417766399 / 2 ^ 43"
    by (simp add: fourRow_def)
  show "sum_list (map scaledWidth (take 3 fourRow)) < containerWidth tightSettings"
    by (simp add: fourRow_def tightSettings_def)
  show "sum_list (map (\<lambda>im. targetRowHeight tightSettings * (ss_width im / ss_height im))
         (take 3 fourImages)) = containerWidth tightSettings"
    by (simp add: fourImages_def tightSettings_def)
  show "ssc_height (the (generateSmartStitch True fourImages tightSettings))
        = 3127499741229511 / 2 ^ 45"
    unfolding generateSmartStitch_def four_rows
    by (simp add: four_rowHeight fourImages_def Let_def) (simp add: tightSettings_def fl_four_height)
qed

section \<open>Properties of the region interaction\<close>

lemma modifiedCrop_inBounds:
  assumes "regionInBounds init"
  shows "regionInBounds (modifiedCrop m init dx dy)"
  using assms
  by (cases m) (auto simp: modifiedCrop_def regionInBounds_def Let_def)

lemma modifiedCrop_corner:
  assumes "handle \<in> {ResizeNW, ResizeNE, ResizeSW, ResizeSE}"
  shows "oppositeCorner handle (modifiedCrop handle init dx dy) = oppositeCorner handle init"
  using assms by (auto simp: modifiedCrop_def Let_def)

lemma modifiedCrop_id: "crop_id (modifiedCrop m init dx dy) = crop_id init"
  by (cases m) (simp_all add: modifiedCrop_def Let_def)

lemma move_resize_commit_inBounds:
  assumes i: "interaction st = Some i" "mode i \<noteq> Create" "initialCrop i = Some init"
      and init: "regionInBounds init"
      and all: "\<forall>c \<in> set (layer_crops (layer st)). regionInBounds c"
  shows "\<forall>c \<in> set (layer_crops (layer
            (handleWindowMouseUp container ux uy newId
               (handleWindowMouseMove container cx cy st)))). regionInBounds c"
proof (cases "truthy (activeId i)")
  case True
  obtain px py where p: "getClientPos container cx cy = (px, py)" by (cases "getClientPos container cx cy")
  have mv: "handleWindowMouseMove container cx cy st =
          st\<lparr>optimisticCrop := Some (modifiedCrop (mode i) init (px - startX i) (py - startY i))\<rparr>"
    using i True by (simp add: handleWindowMouseMove_def p Let_def)
  show ?thesis
    unfolding mv using i True all modifiedCrop_inBounds [OF init]
    by (auto simp: handleWindowMouseUp_def onUpdateLayer_def Let_def)
next
  case False
  have mv: "handleWindowMouseMove container cx cy st = st"
    using i False by (simp add: handleWindowMouseMove_def Let_def case_prod_beta)
  show ?thesis
    unfolding mv using i False all
    by (auto simp: handleWindowMouseUp_def onUpdateLayer_def Let_def split: option.splits)
qed

text \<open>
  Claim C1 fails on the code. The container lies at (100, 100) in the window and is
  200 by 100 pixels. A creation gesture starts inside the image, at the client
  position (200, 150), which is (50%, 50%), and is released at the client position
  (50, 75), left of and above the image, which is (-25%, -25%): the listeners are on
  the window, so the pointer may leave the container. The region committed on
  pointer-up is \<open>x = -25, y = -25, width = 75, height = 75\<close>, with \<open>x < 0\<close> and
  \<open>y < 0\<close>. The paths of moving and resizing clamp (lemma
  \<open>move_resize_commit_inBounds\<close>); the path of creation only checks the minimum size.
\<close>

theorem create_escapes_bounds:
  "layer_crops (layer (run (Some offsetContainer) (idleCropper blankLayer)
       [MouseDown 200 150, WindowMouseMove 50 75, WindowMouseUp 50 75 ''r1'']))
     = [region ''r1'' (-25) (-25) 75 75 False]
   \<and> \<not> regionInBounds (region ''r1'' (-25) (-25) 75 75 False)"
  by (simp add: run_def handleMouseDown_def handleWindowMouseMove_def handleWindowMouseUp_def
        getClientPos_def offsetContainer_def idleCropper_def blankLayer_def onUpdateLayer_def
        region_def regionInBounds_def Let_def)

lemma step_move_resizing:
  assumes h: "handle \<in> {ResizeNW, ResizeNE, ResizeSW, ResizeSE}"
      and i: "interaction st = Some \<lparr>mode = handle, startX = sx, startY = sy,
                 initialCrop = Some crop, activeId = Some (crop_id crop)\<rparr>"
      and o: "optimisticCrop st = Some c" "oppositeCorner handle c = oppositeCorner handle crop"
  shows "\<exists>c'. step container st (WindowMouseMove cx cy) = st\<lparr>optimisticCrop := Some c'\<rparr>
            \<and> oppositeCorner handle c' = oppositeCorner handle crop"
proof (cases "truthy (Some (crop_id crop))")
  case True
  obtain px py where p: "getClientPos container cx cy = (px, py)"
    by (cases "getClientPos container cx cy")
  have "handle \<noteq> Create" using h by auto
  then have "step container st (WindowMouseMove cx cy) =
          st\<lparr>optimisticCrop := Some (modifiedCrop handle crop (px - sx) (py - sy))\<rparr>"
    using i True by (simp add: handleWindowMouseMove_def p Let_def)
  with modifiedCrop_corner [OF h] show ?thesis by blast
next
  case False
  have "handle \<noteq> Create" using h by auto
  then have "step container st (WindowMouseMove cx cy) = st"
    using i False by (simp add: handleWindowMouseMove_def Let_def case_prod_beta)
  then have "step container st (WindowMouseMove cx cy) = st\<lparr>optimisticCrop := Some c\<rparr>"
    using o by simp
  with o show ?thesis by blast
qed

lemma run_moves_resizing:
  assumes h: "handle \<in> {ResizeNW, ResizeNE, ResizeSW, ResizeSE}"
      and i: "interaction st = Some \<lparr>mode = handle, startX = sx, startY = sy,
                 initialCrop = Some crop, activeId = Some (crop_id crop)\<rparr>"
      and o: "optimisticCrop st = Some c" "oppositeCorner handle c = oppositeCorner handle crop"
  shows "\<exists>c'. run container st (map (\<lambda>(cx, cy). WindowMouseMove cx cy) moves)
               = st\<lparr>optimisticCrop := Some c'\<rparr>
            \<and> oppositeCorner handle c' = oppositeCorner handle crop"
  using i o
proof (induction moves arbitrary: st c)
  case Nil
  then show ?case by (auto simp: run_def intro: exI [of _ c])
next
  case (Cons m moves)
  obtain cx cy where m: "m = (cx, cy)" by (cases m)
  from step_move_resizing [OF h Cons.prems, of container cx cy]
  obtain c1 where s1: "step container st (WindowMouseMove cx cy) = st\<lparr>optimisticCrop := Some c1\<rparr>"
      and c1: "oppositeCorner handle c1 = oppositeCorner handle crop" by blast
  let ?st1 = "st\<lparr>optimisticCrop := Some c1\<rparr>"
  have i1: "interaction ?st1 = Some \<lparr>mode = handle, startX = sx, startY = sy,
                 initialCrop = Some crop, activeId = Some (crop_id crop)\<rparr>"
    using Cons.prems(1) by simp
  have o1: "optimisticCrop ?st1 = Some c1" by simp
  from Cons.IH [OF i1 o1 c1]
  obtain c' where r: "run container ?st1 (map (\<lambda>(cx, cy). WindowMouseMove cx cy) moves)
               = ?st1\<lparr>optimisticCrop := Some c'\<rparr>"
      and c': "oppositeCorner handle c' = oppositeCorner handle crop" by blast
  have "run container st (map (\<lambda>(cx, cy). WindowMouseMove cx cy) (m # moves))
          = run container ?st1 (map (\<lambda>(cx, cy). WindowMouseMove cx cy) moves)"
    using s1 by (simp add: run_def m del: step.simps)
  with r c' show ?case by (auto intro: exI [of _ c'])
qed

text \<open>
  Claim C7. A resize gesture is started on a region \<open>crop\<close> from one of the four corner
  handles and followed by any sequence of pointer moves, at any positions. The
  ephemeral rectangle held after the moves (hence after each of them, the sequence
  being arbitrary) has the corner diagonally opposite the handle where the snapshot
  taken at pointer-down has it, and a pointer-up then writes exactly this rectangle
  over the region in the owner's list. Over the reals the two corners are equal; the
  tolerance of the claim accounts for the rounding of doubles.
\<close>

theorem resize_keeps_opposite_corner:
  assumes h: "handle \<in> {ResizeNW, ResizeNE, ResizeSW, ResizeSE}"
  shows "let st1 = handleResizeMouseDown container dx dy crop handle st;
             st2 = run container st1 (map (\<lambda>(cx, cy). WindowMouseMove cx cy) moves)
         in \<exists>c. optimisticCrop st2 = Some c
              \<and> oppositeCorner handle c = oppositeCorner handle crop
              \<and> (crop_id crop \<noteq> [] \<longrightarrow>
                   layer_crops (layer (step container st2 (WindowMouseUp ux uy newId)))
                     = map (\<lambda>d. if crop_id d = crop_id crop then c else d)
                           (layer_crops (layer st)))"
proof -
  obtain px py where p: "getClientPos container dx dy = (px, py)"
    by (cases "getClientPos container dx dy")
  define st1 where "st1 = handleResizeMouseDown container dx dy crop handle st"
  have i: "interaction st1 = Some \<lparr>mode = handle, startX = px, startY = py,
                 initialCrop = Some crop, activeId = Some (crop_id crop)\<rparr>"
    and o: "optimisticCrop st1 = Some crop"
    and l: "layer st1 = layer st"
    by (simp_all add: st1_def handleResizeMouseDown_def p)
  from run_moves_resizing [OF h i o refl, of container moves]
  obtain c where r: "run container st1 (map (\<lambda>(cx, cy). WindowMouseMove cx cy) moves)
               = st1\<lparr>optimisticCrop := Some c\<rparr>"
      and c: "oppositeCorner handle c = oppositeCorner handle crop" by blast
  have nc: "handle \<noteq> Create" using h by auto
  have up: "layer_crops (layer (step container (st1\<lparr>optimisticCrop := Some c\<rparr>)
                 (WindowMouseUp ux uy newId)))
                     = map (\<lambda>d. if crop_id d = crop_id crop then c else d)
                           (layer_crops (layer st))" if "crop_id crop \<noteq> []"
    using that i l nc
    by (simp add: handleWindowMouseUp_def onUpdateLayer_def truthy_def Let_def)
  show ?thesis
    unfolding Let_def st1_def [symmetric] r
    using c up by (intro exI [of _ c]) simp
qed

lemma resize_nw_example:
  "layer_crops (layer (run (Some container200)
      ((idleCropper (blankLayer\<lparr>layer_crops := [region ''r1'' 20 20 40 40 False]\<rparr>))
         \<lparr>activeCropId := Some ''r1''\<rparr>)
      [ResizeMouseDown ''r1'' ResizeNW 40 20, WindowMouseMove 0 0, WindowMouseMove 60 30,
       WindowMouseUp 60 30 ''n'']))
    = [region ''r1'' 30 30 30 30 False]
   \<and> oppositeCorner ResizeNW (region ''r1'' 30 30 30 30 False)
       = oppositeCorner ResizeNW (region ''r1'' 20 20 40 40 False)"
  by (simp add: run_def handleResizeMouseDown_def handleWindowMouseMove_def handleWindowMouseUp_def
        getClientPos_def container200_def idleCropper_def blankLayer_def onUpdateLayer_def
        region_def displayedCrops_def modifiedCrop_def truthy_def Let_def)

theorem resize_keeps_opposite_corner_witness:
  "ResizeNW \<in> {ResizeNW, ResizeNE, ResizeSW, ResizeSE}
   \<and> (\<exists>c. optimisticCrop
          (run (Some container200)
             (handleResizeMouseDown (Some container200) 40 20
                (region ''r1'' 20 20 40 40 False) ResizeNW
                (idleCropper (blankLayer\<lparr>layer_crops := [region ''r1'' 20 20 40 40 False]\<rparr>)))
             [WindowMouseMove 0 0, WindowMouseMove 60 30]) = Some c
        \<and> oppositeCorner ResizeNW c = (60, 60))"
  using resize_keeps_opposite_corner
    [of ResizeNW "Some container200" 40 20 "region ''r1'' 20 20 40 40 False"
        "idleCropper (blankLayer\<lparr>layer_crops := [region ''r1'' 20 20 40 40 False]\<rparr>)"
        "[(0, 0), (60, 30)]" 60 30 "''n''"]
  by (auto simp: Let_def region_def)


lemma step_pointer_idle:
  "interaction st = None \<Longrightarrow> pointerEvent e \<Longrightarrow> step container st e = st"
  by (cases e) simp_all

lemma run_pointer_idle:
  "interaction st = None \<Longrightarrow> \<forall>e \<in> set events. pointerEvent e \<Longrightarrow> run container st events = st"
  unfolding run_def
  by (induction events) (simp_all add: step_pointer_idle del: step.simps)

lemma find_distinct_member:
  "distinct (map f xs) \<Longrightarrow> x \<in> set xs \<Longrightarrow> find (\<lambda>c. f c = f x) xs = Some x"
  by (induction xs) (auto simp: image_iff)

text \<open>
  Claim C8. For a locked region: a pointer-down on its body only makes it the active
  region (the state is otherwise unchanged, so no interaction is established); if no
  gesture was in progress, every following sequence of pointer moves and pointer-ups
  leaves the whole state, and with it the region list, as it is; while the region is
  the active one (ids being unique in the owner's list), the keys Delete and
  Backspace change nothing; and its resize handles, which are not rendered, start no
  gesture.
\<close>

theorem locked_region_is_inert:
  assumes locked: "isLocked crop"
  shows "handleCropMouseDown container cx cy crop st = st\<lparr>activeCropId := Some (crop_id crop)\<rparr>
       \<and> (interaction st = None \<longrightarrow>
            (\<forall>events. (\<forall>e \<in> set events. pointerEvent e) \<longrightarrow>
               run container (handleCropMouseDown container cx cy crop st) events
                 = st\<lparr>activeCropId := Some (crop_id crop)\<rparr>))
       \<and> (crop \<in> set (layer_crops (layer st))
            \<and> distinct (map crop_id (layer_crops (layer st)))
            \<and> activeCropId st = Some (crop_id crop)
              \<longrightarrow> handleKeyDown ''Delete'' st = st \<and> handleKeyDown ''Backspace'' st = st)
       \<and> (find (\<lambda>c. crop_id c = crop_id crop) (displayedCrops st) = Some crop
              \<longrightarrow> step container st (ResizeMouseDown (crop_id crop) handle cx cy) = st)"
proof (intro conjI impI allI)
  show d: "handleCropMouseDown container cx cy crop st = st\<lparr>activeCropId := Some (crop_id crop)\<rparr>"
    using locked by (simp add: handleCropMouseDown_def)
  show "run container (handleCropMouseDown container cx cy crop st) events
                 = st\<lparr>activeCropId := Some (crop_id crop)\<rparr>"
    if "interaction st = None" "\<forall>e \<in> set events. pointerEvent e" for events
    unfolding d using that by (intro run_pointer_idle) simp_all
next
  assume a: "crop \<in> set (layer_crops (layer st))
            \<and> distinct (map crop_id (layer_crops (layer st)))
            \<and> activeCropId st = Some (crop_id crop)"
  then have "find (\<lambda>c. crop_id c = crop_id crop) (layer_crops (layer st)) = Some crop"
    by (intro find_distinct_member) simp_all
  then have f: "find (\<lambda>c. Some (crop_id c) = activeCropId st) (layer_crops (layer st)) = Some crop"
    using a by simp
  show "handleKeyDown ''Delete'' st = st"
    using f locked by (simp add: handleKeyDown_def)
  show "handleKeyDown ''Backspace'' st = st"
    using f locked by (simp add: handleKeyDown_def)
next
  assume "find (\<lambda>c. crop_id c = crop_id crop) (displayedCrops st) = Some crop"
  then show "step container st (ResizeMouseDown (crop_id crop) handle cx cy) = st"
    using locked by simp
qed

theorem locked_region_is_inert_witness:
  "run (Some container200)
     (handleCropMouseDown (Some container200) 60 30 (region ''r1'' 20 20 40 40 True)
        (idleCropper (blankLayer\<lparr>layer_crops := [region ''r1'' 20 20 40 40 True]\<rparr>)))
     [WindowMouseMove 100 80, WindowMouseUp 100 80 ''n'']
   = (idleCropper (blankLayer\<lparr>layer_crops := [region ''r1'' 20 20 40 40 True]\<rparr>))
       \<lparr>activeCropId := Some ''r1''\<rparr>
   \<and> handleKeyDown ''Delete''
       ((idleCropper (blankLayer\<lparr>layer_crops := [region ''r1'' 20 20 40 40 True]\<rparr>))
          \<lparr>activeCropId := Some ''r1''\<rparr>)
     = (idleCropper (blankLayer\<lparr>layer_crops := [region ''r1'' 20 20 40 40 True]\<rparr>))
          \<lparr>activeCropId := Some ''r1''\<rparr>"
proof -
  let ?c = "region ''r1'' 20 20 40 40 True"
  let ?st = "idleCropper (blankLayer\<lparr>layer_crops := [?c]\<rparr>)"
  have l: "isLocked ?c" by (simp add: region_def)
  have id: "crop_id ?c = ''r1''" by (simp add: region_def)
  have idle: "interaction ?st = None" by (simp add: idleCropper_def)
  have ev: "\<forall>e \<in> set [WindowMouseMove 100 80, WindowMouseUp 100 80 ''n'']. pointerEvent e"
    by simp
  from locked_region_is_inert [OF l, of "Some container200" 60 30 ?st] idle ev
  have "run (Some container200) (handleCropMouseDown (Some container200) 60 30 ?c ?st)
          [WindowMouseMove 100 80, WindowMouseUp 100 80 ''n'']
        = ?st\<lparr>activeCropId := Some ''r1''\<rparr>"
    unfolding id by blast
  moreover
  let ?st2 = "?st\<lparr>activeCropId := Some ''r1''\<rparr>"
  have k: "?c \<in> set (layer_crops (layer ?st2))
            \<and> distinct (map crop_id (layer_crops (layer ?st2)))
            \<and> activeCropId ?st2 = Some (crop_id ?c)"
    by (simp add: idleCropper_def id)
  from locked_region_is_inert [OF l, of "Some container200" 60 30 ?st2] k
  have "handleKeyDown ''Delete'' ?st2 = ?st2" by blast
  ultimately show ?thesis by simp
qed


section \<open>Properties of the asset graph\<close>

lemma addToStitch_unfold:
  "handleAddToStitch newId lid cid st =
     (if \<exists>l \<in> set (layers st). layer_id l = lid then
        st\<lparr>layers := map (\<lambda>l. if layer_id l = lid
                                 then l\<lparr>layer_crops := flagged cid (layer_crops l)\<rparr> else l)
                           (layers st),
           stitchItems := stitchItems st @ [\<lparr>item_id = newId, item_layerId = lid, item_cropId = cid\<rparr>]\<rparr>
      else if \<exists>g \<in> set (groups st). group_id g = lid then
        st\<lparr>groups := map (\<lambda>g. if group_id g = lid
                                 then g\<lparr>group_crops := flagged cid (group_crops g)\<rparr> else g)
                           (groups st),
           stitchItems := stitchItems st @ [\<lparr>item_id = newId, item_layerId = lid, item_cropId = cid\<rparr>]\<rparr>
      else st)"
proof -
  have l: "(\<lambda>l. if layer_id l \<noteq> lid then l
            else l\<lparr>layer_crops := map (\<lambda>c. if crop_id c = cid then c\<lparr>isStitched := True\<rparr> else c)
                                     (layer_crops l)\<rparr>)
        = (\<lambda>l. if layer_id l = lid then l\<lparr>layer_crops := flagged cid (layer_crops l)\<rparr> else l)"
    by (rule ext) (simp add: flagged_def)
  have g: "(\<lambda>g. if group_id g \<noteq> lid then g
            else g\<lparr>group_crops := map (\<lambda>c. if crop_id c = cid then c\<lparr>isStitched := True\<rparr> else c)
                                     (group_crops g)\<rparr>)
        = (\<lambda>g. if group_id g = lid then g\<lparr>group_crops := flagged cid (group_crops g)\<rparr> else g)"
    by (rule ext) (simp add: flagged_def)
  have f: "(\<exists>g \<in> set (groups st). group_id g = lid)
             = (find (\<lambda>g. group_id g = lid) (groups st) \<noteq> None)"
    by (auto simp: find_None_iff)
  show ?thesis
    unfolding handleAddToStitch_def Let_def l g f
    by (cases "find (\<lambda>g. group_id g = lid) (groups st)") simp_all
qed


lemma flagged_queued:
  assumes "c \<in> set (flagged cid crops)" and "crop_id c = cid"
  shows "isStitched c"
proof -
  from assms(1) have "c \<in> (\<lambda>c. if crop_id c = cid then c\<lparr>isStitched := True\<rparr> else c) ` set crops"
    by (simp only: flagged_def set_map)
  then obtain c0 where c: "c = (if crop_id c0 = cid then c0\<lparr>isStitched := True\<rparr> else c0)"
    by (rule imageE)
  show ?thesis
  proof (cases "crop_id c0 = cid")
    case True
    with c have "c = c0\<lparr>isStitched := True\<rparr>" by simp
    then show ?thesis by simp
  next
    case False
    with c have "c = c0" by simp
    with assms(2) False show ?thesis by simp
  qed
qed

lemma flagged_ids: "map crop_id (flagged cid crops) = map crop_id crops"
  by (simp add: flagged_def)

text \<open>
  Claim C2, as amended. \<open>handleAddToStitch\<close> looks at the owner only. If \<open>lid\<close> is the id
  of a Layer, one item referring to the pair is appended to the queue, every region of
  such a Layer with the id \<open>cid\<close> gets the queued flag, and the groups are unchanged;
  if \<open>lid\<close> is the id of no Layer but of a Group, the same holds with the Group in
  place of the Layer; in both cases the item is appended whether or not the owner has
  a region with the id \<open>cid\<close>. If \<open>lid\<close> is the id of no Layer and of no Group, the
  state is unchanged.
\<close>

theorem enqueue_stitch_by_owner:
  "let st' = handleAddToStitch newId lid cid st;
       isLayer = (\<exists>l \<in> set (layers st). layer_id l = lid);
       isGroup = (\<exists>g \<in> set (groups st). group_id g = lid);
       newItem = \<lparr>item_id = newId, item_layerId = lid, item_cropId = cid\<rparr>
   in (isLayer \<longrightarrow>
         stitchItems st' = stitchItems st @ [newItem]
       \<and> groups st' = groups st
       \<and> layers st' = map (\<lambda>l. if layer_id l = lid
                                 then l\<lparr>layer_crops := flagged cid (layer_crops l)\<rparr> else l)
                           (layers st)
       \<and> (\<forall>l \<in> set (layers st'). layer_id l = lid \<longrightarrow>
             (\<forall>c \<in> set (layer_crops l). crop_id c = cid \<longrightarrow> isStitched c)))
    \<and> (\<not> isLayer \<and> isGroup \<longrightarrow>
         stitchItems st' = stitchItems st @ [newItem]
       \<and> layers st' = layers st
       \<and> groups st' = map (\<lambda>g. if group_id g = lid
                                 then g\<lparr>group_crops := flagged cid (group_crops g)\<rparr> else g)
                           (groups st)
       \<and> (\<forall>g \<in> set (groups st'). group_id g = lid \<longrightarrow>
             (\<forall>c \<in> set (group_crops g). crop_id c = cid \<longrightarrow> isStitched c)))
    \<and> (\<not> isLayer \<and> \<not> isGroup \<longrightarrow> st' = st)"
proof -
  let ?item = "\<lparr>item_id = newId, item_layerId = lid, item_cropId = cid\<rparr>"
  let ?ls = "map (\<lambda>l. if layer_id l = lid
                       then l\<lparr>layer_crops := flagged cid (layer_crops l)\<rparr> else l) (layers st)"
  let ?gs = "map (\<lambda>g. if group_id g = lid
                       then g\<lparr>group_crops := flagged cid (group_crops g)\<rparr> else g) (groups st)"
  have ql: "\<forall>l \<in> set ?ls. layer_id l = lid \<longrightarrow>
             (\<forall>c \<in> set (layer_crops l). crop_id c = cid \<longrightarrow> isStitched c)"
  proof (intro ballI impI)
    fix l c assume "l \<in> set ?ls" "c \<in> set (layer_crops l)" "crop_id c = cid"
    then obtain l0 where "l0 \<in> set (layers st)"
      "l = (if layer_id l0 = lid then l0\<lparr>layer_crops := flagged cid (layer_crops l0)\<rparr> else l0)"
      by auto
    moreover assume "layer_id l = lid"
    ultimately have "layer_crops l = flagged cid (layer_crops l0)"
      by (cases "layer_id l0 = lid") simp_all
    with \<open>c \<in> set (layer_crops l)\<close> \<open>crop_id c = cid\<close> show "isStitched c"
      by (simp add: flagged_queued)
  qed
  have qg: "\<forall>g \<in> set ?gs. group_id g = lid \<longrightarrow>
             (\<forall>c \<in> set (group_crops g). crop_id c = cid \<longrightarrow> isStitched c)"
  proof (intro ballI impI)
    fix g c assume "g \<in> set ?gs" "c \<in> set (group_crops g)" "crop_id c = cid"
    then obtain g0 where "g0 \<in> set (groups st)"
      "g = (if group_id g0 = lid then g0\<lparr>group_crops := flagged cid (group_crops g0)\<rparr> else g0)"
      by auto
    moreover assume "group_id g = lid"
    ultimately have "group_crops g = flagged cid (group_crops g0)"
      by (cases "group_id g0 = lid") simp_all
    with \<open>c \<in> set (group_crops g)\<close> \<open>crop_id c = cid\<close> show "isStitched c"
      by (simp add: flagged_queued)
  qed
  show ?thesis
  proof (cases "\<exists>l \<in> set (layers st). layer_id l = lid")
    case True
    have e: "handleAddToStitch newId lid cid st
               = st\<lparr>layers := ?ls, stitchItems := stitchItems st @ [?item]\<rparr>"
      by (subst addToStitch_unfold) (simp only: True if_True)
    show ?thesis
      unfolding Let_def e using True ql by simp
  next
    case False
    note nl = this
    show ?thesis
    proof (cases "\<exists>g \<in> set (groups st). group_id g = lid")
      case True
      have e: "handleAddToStitch newId lid cid st
               = st\<lparr>groups := ?gs, stitchItems := stitchItems st @ [?item]\<rparr>"
        by (subst addToStitch_unfold) (simp only: nl True if_True if_False)
      show ?thesis
        unfolding Let_def e using nl True qg by simp
    next
      case False
      have e: "handleAddToStitch newId lid cid st = st"
        by (subst addToStitch_unfold) (simp only: nl False if_False)
      show ?thesis
        unfolding Let_def e using nl False by simp
    qed
  qed
qed


text \<open>
  Claim C2 as stated fails: for the Layer \<open>L1\<close>, which has no region at all, and the
  region id \<open>gone\<close> the pair does not resolve, yet the queue, empty before, holds an
  item for it afterwards.
\<close>

theorem enqueue_unknown_region_counterexample:
  "layers (libraryOf [plainLayer ''L1'' None []] []) = [plainLayer ''L1'' None []]
   \<and> layer_id (plainLayer ''L1'' None []) = ''L1''
   \<and> layer_crops (plainLayer ''L1'' None []) = []
   \<and> stitchItems (libraryOf [plainLayer ''L1'' None []] []) = []
   \<and> stitchItems (handleAddToStitch ''q1'' ''L1'' ''gone'' (libraryOf [plainLayer ''L1'' None []] []))
       = [\<lparr>item_id = ''q1'', item_layerId = ''L1'', item_cropId = ''gone''\<rparr>]"
  by (simp add: handleAddToStitch_def libraryOf_def plainLayer_def Let_def)

theorem enqueue_stitch_witness:
  "stitchItems (handleAddToStitch ''q1'' ''L1'' ''r1''
       (libraryOf [plainLayer ''L1'' None [region ''r1'' 10 10 20 20 True]] []))
     = [\<lparr>item_id = ''q1'', item_layerId = ''L1'', item_cropId = ''r1''\<rparr>]
   \<and> layers (handleAddToStitch ''q1'' ''L1'' ''r1''
       (libraryOf [plainLayer ''L1'' None [region ''r1'' 10 10 20 20 True]] []))
     = [plainLayer ''L1'' None [(region ''r1'' 10 10 20 20 True)\<lparr>isStitched := True\<rparr>]]
   \<and> handleAddToStitch ''q1'' ''nobody'' ''r1''
       (libraryOf [plainLayer ''L1'' None [region ''r1'' 10 10 20 20 True]] [])
     = libraryOf [plainLayer ''L1'' None [region ''r1'' 10 10 20 20 True]] []"
proof -
  let ?st = "libraryOf [plainLayer ''L1'' None [region ''r1'' 10 10 20 20 True]] []"
  have yes: "\<exists>l \<in> set (layers ?st). layer_id l = ''L1''"
    by (simp add: libraryOf_def plainLayer_def)
  have no: "\<not> (\<exists>l \<in> set (layers ?st). layer_id l = ''nobody'')
           \<and> \<not> (\<exists>g \<in> set (groups ?st). group_id g = ''nobody'')"
    by (simp add: libraryOf_def plainLayer_def)
  note t1 = enqueue_stitch_by_owner [of "''q1''" "''L1''" "''r1''" ?st, unfolded Let_def]
  note t2 = enqueue_stitch_by_owner [of "''q1''" "''nobody''" "''r1''" ?st, unfolded Let_def]
  from t1 yes
  have a: "stitchItems (handleAddToStitch ''q1'' ''L1'' ''r1'' ?st)
          = stitchItems ?st @ [\<lparr>item_id = ''q1'', item_layerId = ''L1'', item_cropId = ''r1''\<rparr>]"
    by blast
  from t1 yes
  have b: "layers (handleAddToStitch ''q1'' ''L1'' ''r1'' ?st)
          = map (\<lambda>l. if layer_id l = ''L1''
                      then l\<lparr>layer_crops := flagged ''r1'' (layer_crops l)\<rparr> else l) (layers ?st)"
    by blast
  from t2 no
  have c: "handleAddToStitch ''q1'' ''nobody'' ''r1'' ?st = ?st" by blast
  have a': "stitchItems ?st @ [\<lparr>item_id = ''q1'', item_layerId = ''L1'', item_cropId = ''r1''\<rparr>]
              = [\<lparr>item_id = ''q1'', item_layerId = ''L1'', item_cropId = ''r1''\<rparr>]"
    by (simp add: libraryOf_def)
  have b': "map (\<lambda>l. if layer_id l = ''L1''
                      then l\<lparr>layer_crops := flagged ''r1'' (layer_crops l)\<rparr> else l) (layers ?st)
              = [plainLayer ''L1'' None [(region ''r1'' 10 10 20 20 True)\<lparr>isStitched := True\<rparr>]]"
    by (simp add: libraryOf_def plainLayer_def flagged_def region_def)
  show ?thesis
    unfolding a b c a' b' by simp
qed


text \<open>
  Claim C9, as amended. Let \<open>ids\<close> be the ids of the selected Layers that are in no group, in the
  order in which these Layers stand in the library (the list \<open>layers\<close>), whatever the
  order in which they were selected. With fewer than two of them \<open>handleCreateGroup\<close> changes
  nothing. Otherwise exactly one Group is appended; it has the new id, the member
  list \<open>ids\<close>, no regions and no parent; the list of Layers keeps its length and
  order, every Layer whose id is in \<open>ids\<close> gets the new Group's id as \<open>groupId\<close>, and
  every other Layer is unchanged. When the ids of the Layers are pairwise distinct,
  the Layers that change are exactly the selected ungrouped ones. The earlier Groups
  are unchanged.
\<close>

theorem create_group_from_selection:
  "let ids = map layer_id
               (filter (\<lambda>l. layer_id l \<in> set (selectedLibraryIds st) \<and> \<not> truthy (groupId l)) (layers st));
       st' = handleCreateGroup newId st
   in (length ids < 2 \<longrightarrow> st' = st)
    \<and> (length ids \<ge> 2 \<longrightarrow>
         (\<exists>g. groups st' = groups st @ [g]
              \<and> group_id g = newId \<and> layerIds g = ids
              \<and> group_crops g = [] \<and> parentGroupId g = None)
       \<and> length (layers st') = length (layers st)
       \<and> (\<forall>i < length (layers st).
             layers st' ! i =
               (if layer_id (layers st ! i) \<in> set ids
                then (layers st ! i)\<lparr>groupId := Some newId\<rparr> else layers st ! i))
       \<and> (distinct (map layer_id (layers st)) \<longrightarrow>
            (\<forall>i < length (layers st).
               layers st' ! i =
                 (if layer_id (layers st ! i) \<in> set (selectedLibraryIds st)
                       \<and> \<not> truthy (groupId (layers st ! i))
                  then (layers st ! i)\<lparr>groupId := Some newId\<rparr> else layers st ! i))))"
proof -
  define ids where "ids = map layer_id
               (filter (\<lambda>l. layer_id l \<in> set (selectedLibraryIds st) \<and> \<not> truthy (groupId l)) (layers st))"
  have small: "handleCreateGroup newId st = st" if "length ids < 2"
    using that by (simp add: handleCreateGroup_def Let_def ids_def)
  have big: "handleCreateGroup newId st =
               (createGroupFromLayers newId ids st)\<lparr>selectedLibraryIds := [], isSelectionMode := False\<rparr>"
    if "length ids \<ge> 2"
    using that by (simp add: handleCreateGroup_def Let_def ids_def)
  show ?thesis
    unfolding Let_def ids_def [symmetric]
  proof (intro conjI impI allI)
    assume "length ids < 2"
    then show "handleCreateGroup newId st = st" by (rule small)
  next
    assume a: "2 \<le> length ids"
    show "\<exists>g. groups (handleCreateGroup newId st) = groups st @ [g]
              \<and> group_id g = newId \<and> layerIds g = ids
              \<and> group_crops g = [] \<and> parentGroupId g = None"
      unfolding big [OF a] by (simp add: createGroupFromLayers_def Let_def)
    show "length (layers (handleCreateGroup newId st)) = length (layers st)"
      unfolding big [OF a] by (simp add: createGroupFromLayers_def Let_def)
    fix i assume "i < length (layers st)"
    then show "layers (handleCreateGroup newId st) ! i =
               (if layer_id (layers st ! i) \<in> set ids
                then (layers st ! i)\<lparr>groupId := Some newId\<rparr> else layers st ! i)"
      unfolding big [OF a] by (simp add: createGroupFromLayers_def Let_def)
  next
    assume a: "2 \<le> length ids" and d: "distinct (map layer_id (layers st))"
    fix i assume i: "i < length (layers st)"
    let ?l = "layers st ! i"
    have mem: "?l \<in> set (layers st)" using i by simp
    have "(layer_id ?l \<in> set ids)
            = (layer_id ?l \<in> set (selectedLibraryIds st) \<and> \<not> truthy (groupId ?l))"
    proof
      assume "layer_id ?l \<in> set ids"
      then obtain l' where l': "l' \<in> set (layers st)" "layer_id l' = layer_id ?l"
          "layer_id l' \<in> set (selectedLibraryIds st)" "\<not> truthy (groupId l')"
        unfolding ids_def by auto
      from d have "inj_on layer_id (set (layers st))" by (simp add: distinct_map)
      with l'(1,2) mem have "l' = ?l" by (simp add: inj_on_def)
      with l'(3,4) show "layer_id ?l \<in> set (selectedLibraryIds st) \<and> \<not> truthy (groupId ?l)"
        by simp
    next
      assume "layer_id ?l \<in> set (selectedLibraryIds st) \<and> \<not> truthy (groupId ?l)"
      with mem show "layer_id ?l \<in> set ids" unfolding ids_def by auto
    qed
    moreover have "layers (handleCreateGroup newId st) ! i =
               (if layer_id ?l \<in> set ids then ?l\<lparr>groupId := Some newId\<rparr> else ?l)"
      using i unfolding big [OF a] by (simp add: createGroupFromLayers_def Let_def)
    ultimately show "layers (handleCreateGroup newId st) ! i =
                 (if layer_id ?l \<in> set (selectedLibraryIds st) \<and> \<not> truthy (groupId ?l)
                  then ?l\<lparr>groupId := Some newId\<rparr> else ?l)"
      by simp
  qed
qed

theorem create_group_witness:
  "groups (handleCreateGroup ''G1''
      ((libraryOf [plainLayer ''A'' None [], plainLayer ''B'' (Some ''G0'') [],
                   plainLayer ''C'' None [], plainLayer ''D'' None []]
                  [plainGroup ''G0'' [''B''] None])
         \<lparr>selectedLibraryIds := [''A'', ''B'', ''C'']\<rparr>))
     = [plainGroup ''G0'' [''B''] None,
        \<lparr>group_id = ''G1'', group_name = ''Group 2'', layerIds = [''A'', ''C''],
         group_crops = [], parentGroupId = None\<rparr>]
   \<and> layers (handleCreateGroup ''G1''
      ((libraryOf [plainLayer ''A'' None [], plainLayer ''B'' (Some ''G0'') [],
                   plainLayer ''C'' None [], plainLayer ''D'' None []]
                  [plainGroup ''G0'' [''B''] None])
         \<lparr>selectedLibraryIds := [''A'', ''B'', ''C'']\<rparr>))
     = [plainLayer ''A'' (Some ''G1'') [], plainLayer ''B'' (Some ''G0'') [],
        plainLayer ''C'' (Some ''G1'') [], plainLayer ''D'' None []]
   \<and> handleCreateGroup ''G1''
      ((libraryOf [plainLayer ''A'' None [], plainLayer ''B'' (Some ''G0'') []]
                  [plainGroup ''G0'' [''B''] None])
         \<lparr>selectedLibraryIds := [''A'', ''B'']\<rparr>)
     = (libraryOf [plainLayer ''A'' None [], plainLayer ''B'' (Some ''G0'') []]
                  [plainGroup ''G0'' [''B''] None])
         \<lparr>selectedLibraryIds := [''A'', ''B'']\<rparr>"
proof -
  let ?st = "(libraryOf [plainLayer ''A'' None [], plainLayer ''B'' (Some ''G0'') [],
                   plainLayer ''C'' None [], plainLayer ''D'' None []]
                  [plainGroup ''G0'' [''B''] None])
         \<lparr>selectedLibraryIds := [''A'', ''B'', ''C'']\<rparr>"
  let ?st2 = "(libraryOf [plainLayer ''A'' None [], plainLayer ''B'' (Some ''G0'') []]
                  [plainGroup ''G0'' [''B''] None])
         \<lparr>selectedLibraryIds := [''A'', ''B'']\<rparr>"
  have ids: "map layer_id (filter (\<lambda>l. layer_id l \<in> set (selectedLibraryIds ?st) \<and> \<not> truthy (groupId l))
                (layers ?st)) = [''A'', ''C'']"
    by (simp add: libraryOf_def plainLayer_def truthy_def)
  have ids2: "map layer_id (filter (\<lambda>l. layer_id l \<in> set (selectedLibraryIds ?st2) \<and> \<not> truthy (groupId l))
                (layers ?st2)) = [''A'']"
    by (simp add: libraryOf_def plainLayer_def truthy_def)
  have dist: "distinct (map layer_id (layers ?st))"
    by (simp add: libraryOf_def plainLayer_def)
  note t = create_group_from_selection [of ?st "''G1''", unfolded Let_def ids]
  note t2 = create_group_from_selection [of ?st2 "''G1''", unfolded Let_def ids2]
  from t2 have small: "handleCreateGroup ''G1'' ?st2 = ?st2" by simp
  from t obtain g where g: "groups (handleCreateGroup ''G1'' ?st) = groups ?st @ [g]"
      "group_id g = ''G1''" "layerIds g = [''A'', ''C'']"
    and len: "length (layers (handleCreateGroup ''G1'' ?st)) = length (layers ?st)"
    and nth: "\<forall>i < length (layers ?st). layers (handleCreateGroup ''G1'' ?st) ! i =
                 (if layer_id (layers ?st ! i) \<in> set (selectedLibraryIds ?st)
                       \<and> \<not> truthy (groupId (layers ?st ! i))
                  then (layers ?st ! i)\<lparr>groupId := Some ''G1''\<rparr> else layers ?st ! i)"
    using dist by auto
  have "layers (handleCreateGroup ''G1'' ?st)
          = [plainLayer ''A'' (Some ''G1'') [], plainLayer ''B'' (Some ''G0'') [],
             plainLayer ''C'' (Some ''G1'') [], plainLayer ''D'' None []]"
  proof (rule nth_equalityI)
    show "length (layers (handleCreateGroup ''G1'' ?st))
            = length [plainLayer ''A'' (Some ''G1'') [], plainLayer ''B'' (Some ''G0'') [],
             plainLayer ''C'' (Some ''G1'') [], plainLayer ''D'' None []]"
      using len by (simp add: libraryOf_def)
    fix i assume "i < length (layers (handleCreateGroup ''G1'' ?st))"
    then have i: "i < 4" using len by (simp add: libraryOf_def)
    then have "i = 0 \<or> i = 1 \<or> i = 2 \<or> i = 3" by arith
    moreover from i nth have "layers (handleCreateGroup ''G1'' ?st) ! i =
                 (if layer_id (layers ?st ! i) \<in> set (selectedLibraryIds ?st)
                       \<and> \<not> truthy (groupId (layers ?st ! i))
                  then (layers ?st ! i)\<lparr>groupId := Some ''G1''\<rparr> else layers ?st ! i)"
      by (simp add: libraryOf_def)
    ultimately show "layers (handleCreateGroup ''G1'' ?st) ! i
            = [plainLayer ''A'' (Some ''G1'') [], plainLayer ''B'' (Some ''G0'') [],
             plainLayer ''C'' (Some ''G1'') [], plainLayer ''D'' None []] ! i"
      by (auto simp: libraryOf_def plainLayer_def truthy_def)
  qed
  moreover have "groups (handleCreateGroup ''G1'' ?st)
     = [plainGroup ''G0'' [''B''] None,
        \<lparr>group_id = ''G1'', group_name = ''Group 2'', layerIds = [''A'', ''C''],
         group_crops = [], parentGroupId = None\<rparr>]"
    by (simp add: handleCreateGroup_def createGroupFromLayers_def Let_def libraryOf_def
          plainLayer_def plainGroup_def truthy_def showNat.simps)
  ultimately show ?thesis using small by simp
qed

text \<open>
  Claim C9 as stated fails: the member list does not follow the order in which the
  layer ids were given, the order of the selection. With the Layers
  \<open>A\<close>, \<open>B\<close>, \<open>C\<close> in the library and \<open>C\<close> selected before \<open>A\<close>, the selection is
  \<open>C\<close>, \<open>A\<close> and the new Group lists \<open>A\<close>, \<open>C\<close>.
\<close>

theorem create_group_selection_order_counterexample:
  "selectedLibraryIds
     (toggleSelection ''A'' (toggleSelection ''C''
        (libraryOf [plainLayer ''A'' None [], plainLayer ''B'' None [], plainLayer ''C'' None []] [])))
     = [''C'', ''A'']
   \<and> map layerIds (groups (handleCreateGroup ''G1''
       (toggleSelection ''A'' (toggleSelection ''C''
          (libraryOf [plainLayer ''A'' None [], plainLayer ''B'' None [], plainLayer ''C'' None []] [])))))
     = [[''A'', ''C'']]"
  by (simp add: toggleSelection_def handleCreateGroup_def createGroupFromLayers_def Let_def
        libraryOf_def plainLayer_def truthy_def)


lemma those_map_Some:
  "those (map f xs) = Some rs \<longleftrightarrow> (\<forall>x \<in> set xs. f x \<noteq> None) \<and> rs = map (\<lambda>x. the (f x)) xs"
proof (induction xs arbitrary: rs)
  case Nil
  then show ?case by auto
next
  case (Cons x xs)
  show ?case
  proof (cases "f x")
    case None
    then show ?thesis by auto
  next
    case (Some y)
    show ?thesis
    proof (cases "those (map f xs)")
      case None
      with Cons.IH have "\<not> (\<forall>x \<in> set xs. f x \<noteq> None)" by auto
      with None Some show ?thesis by auto
    next
      case (Some ys)
      with Cons.IH [of ys] have "(\<forall>x \<in> set xs. f x \<noteq> None)" "ys = map (\<lambda>x. the (f x)) xs"
        by auto
      with Some \<open>f x = Some y\<close> show ?thesis by auto
    qed
  qed
qed

lemma getSubGroups_Suc:
  "getSubGroups (Suc depth) gs pId = Some ids \<longleftrightarrow>
     (\<forall>c \<in> set gs. parentGroupId c = Some pId \<longrightarrow> getSubGroups depth gs (group_id c) \<noteq> None)
   \<and> ids = pId # concat (map (\<lambda>c. the (getSubGroups depth gs (group_id c)))
                          (filter (\<lambda>g. parentGroupId g = Some pId) gs))"
  by (auto simp: Let_def those_map_Some)

lemma getSubGroups_returns:
  assumes forest: "\<forall>g \<in> set gs. \<forall>p. parentGroupId g = Some p \<longrightarrow> rank (group_id g) < rank p"
  shows "rank pId < depth \<Longrightarrow> getSubGroups depth gs pId \<noteq> None"
proof (induction depth arbitrary: pId)
  case 0
  then show ?case by simp
next
  case (Suc depth)
  have "getSubGroups depth gs (group_id c) \<noteq> None"
    if "c \<in> set gs" "parentGroupId c = Some pId" for c
  proof -
    from forest that have "rank (group_id c) < rank pId" by blast
    with Suc.prems have "rank (group_id c) < depth" by simp
    then show ?thesis by (rule Suc.IH)
  qed
  then show ?case
    using getSubGroups_Suc [of depth gs pId] by blast
qed

lemma getSubGroups_head: "getSubGroups depth gs pId = Some ids \<Longrightarrow> pId \<in> set ids"
  by (cases depth) (auto simp: getSubGroups_Suc simp del: getSubGroups.simps(2))

lemma descendants_trans:
  "x \<in> descendants gs c \<Longrightarrow> c \<in> descendants gs p \<Longrightarrow> x \<in> descendants gs p"
  by (induction rule: descendants.induct) (auto intro: descendants.child)

lemma getSubGroups_sound:
  "getSubGroups depth gs pId = Some ids \<Longrightarrow> set ids \<subseteq> descendants gs pId"
proof (induction depth arbitrary: pId ids)
  case 0
  then show ?case by simp
next
  case (Suc depth)
  from Suc.prems [unfolded getSubGroups_Suc] have
    ok: "\<forall>c \<in> set gs. parentGroupId c = Some pId \<longrightarrow> getSubGroups depth gs (group_id c) \<noteq> None"
    and ids: "ids = pId # concat (map (\<lambda>c. the (getSubGroups depth gs (group_id c)))
                          (filter (\<lambda>g. parentGroupId g = Some pId) gs))"
    by blast+
  show ?case
  proof
    fix x assume "x \<in> set ids"
    then consider "x = pId"
      | c where "c \<in> set gs" "parentGroupId c = Some pId"
                "x \<in> set (the (getSubGroups depth gs (group_id c)))"
      unfolding ids by auto
    then show "x \<in> descendants gs pId"
    proof cases
      case 1
      then show ?thesis by (simp add: descendants.self)
    next
      case 2
      from ok 2(1,2) obtain r where r: "getSubGroups depth gs (group_id c) = Some r" by blast
      with 2(3) Suc.IH [OF r] have "x \<in> descendants gs (group_id c)" by auto
      moreover have "group_id c \<in> descendants gs pId"
        using 2(1,2) by (auto intro: descendants.child descendants.self)
      ultimately show ?thesis by (rule descendants_trans)
    qed
  qed
qed

lemma getSubGroups_closed:
  "getSubGroups depth gs pId = Some ids \<Longrightarrow> q \<in> set ids \<Longrightarrow> g \<in> set gs
     \<Longrightarrow> parentGroupId g = Some q \<Longrightarrow> group_id g \<in> set ids"
proof (induction depth arbitrary: pId ids)
  case 0
  then show ?case by simp
next
  case (Suc depth)
  from Suc.prems(1) [unfolded getSubGroups_Suc] have
    ok: "\<forall>c \<in> set gs. parentGroupId c = Some pId \<longrightarrow> getSubGroups depth gs (group_id c) \<noteq> None"
    and ids: "ids = pId # concat (map (\<lambda>c. the (getSubGroups depth gs (group_id c)))
                          (filter (\<lambda>g. parentGroupId g = Some pId) gs))"
    by blast+
  have sub: "set (the (getSubGroups depth gs (group_id c))) \<subseteq> set ids"
    if "c \<in> set gs" "parentGroupId c = Some pId" for c
    using that unfolding ids by auto
  from Suc.prems(2) consider "q = pId"
      | c where "c \<in> set gs" "parentGroupId c = Some pId"
                "q \<in> set (the (getSubGroups depth gs (group_id c)))"
    unfolding ids by auto
  then show ?case
  proof cases
    case 1
    with Suc.prems(3,4) have g: "g \<in> set gs" "parentGroupId g = Some pId" by simp_all
    with ok obtain r where r: "getSubGroups depth gs (group_id g) = Some r" by blast
    then have "group_id g \<in> set r" by (rule getSubGroups_head)
    with r sub [OF g] show ?thesis by auto
  next
    case 2
    from ok 2(1,2) obtain r where r: "getSubGroups depth gs (group_id c) = Some r" by blast
    with 2(3) have "q \<in> set r" by simp
    from Suc.IH [OF r this Suc.prems(3,4)] have "group_id g \<in> set r" .
    with r sub [OF 2(1,2)] show ?thesis by auto
  qed
qed

lemma getSubGroups_complete:
  assumes "getSubGroups depth gs pId = Some ids"
  shows "x \<in> descendants gs pId \<Longrightarrow> x \<in> set ids"
proof (induction rule: descendants.induct)
  case self
  from assms show ?case by (rule getSubGroups_head)
next
  case (child g p)
  from getSubGroups_closed [OF assms child.IH child.hyps(1,2)] show ?case .
qed

lemma getSubGroups_descendants:
  "getSubGroups depth gs pId = Some ids \<Longrightarrow> set ids = descendants gs pId"
  using getSubGroups_sound getSubGroups_complete by blast


text \<open>
  Claim C4. The state is an asset graph in the sense of the data model: the
  \<open>parentGroupId\<close> links form a forest (every group ranks below its parent) and a Layer
  whose \<open>groupId\<close> names a Group is listed among that Group's members. Then deleting
  the group \<open>gid\<close> returns (for every recursion bound above the rank of \<open>gid\<close>); the
  Groups that remain are those whose id is not among \<open>gid\<close> and its descendants; the
  Layers that remain are those whose id is in no member list of a removed Group; no
  remaining Layer has the \<open>groupId\<close> of a removed Group; and the active asset is
  cleared if it is one of the removed Groups or Layers and kept otherwise.
\<close>

theorem delete_group_cascade:
  assumes forest: "\<forall>g \<in> set (groups st). \<forall>p. parentGroupId g = Some p
                      \<longrightarrow> rank (group_id g) < (rank p :: nat)"
      and member: "\<forall>l \<in> set (layers st). \<forall>g \<in> set (groups st).
                      groupId l = Some (group_id g) \<longrightarrow> layer_id l \<in> set (layerIds g)"
      and depth: "rank gid < depth"
  shows "\<exists>st'. handleDeleteItem depth gid GroupItem st = Some st'
     \<and> groups st' = filter (\<lambda>g. group_id g \<notin> descendants (groups st) gid) (groups st)
     \<and> layers st' = filter (\<lambda>l. layer_id l \<notin> ownedLayerIds (groups st) gid) (layers st)
     \<and> (\<forall>l \<in> set (layers st'). \<forall>g \<in> set (groups st).
           groupId l = Some (group_id g) \<longrightarrow> g \<in> set (groups st'))
     \<and> (\<forall>a. activeAssetId st = Some a \<and> a \<noteq> []
               \<and> (a \<in> descendants (groups st) gid \<or> a \<in> ownedLayerIds (groups st) gid)
             \<longrightarrow> activeAssetId st' = None)
     \<and> (\<forall>a. activeAssetId st = Some a
               \<and> a \<notin> descendants (groups st) gid \<and> a \<notin> ownedLayerIds (groups st) gid
             \<longrightarrow> activeAssetId st' = Some a)
     \<and> stitchItems st' = stitchItems st"
proof -
  from getSubGroups_returns [OF forest depth]
  obtain ids where ids: "getSubGroups depth (groups st) gid = Some ids" by blast
  have d: "set ids = descendants (groups st) gid"
    using ids by (rule getSubGroups_descendants)
  have o: "set (concat (map layerIds
                  (filter (\<lambda>g. group_id g \<in> descendants (groups st) gid) (groups st))))
             = ownedLayerIds (groups st) gid"
    by (auto simp: ownedLayerIds_def)
  define st' where "st' = st\<lparr>groups := filter (\<lambda>g. group_id g \<notin> descendants (groups st) gid) (groups st),
       layers := filter (\<lambda>l. layer_id l \<notin> ownedLayerIds (groups st) gid) (layers st),
       activeAssetId :=
         (if truthy (activeAssetId st)
               \<and> (the (activeAssetId st) \<in> descendants (groups st) gid
                    \<or> the (activeAssetId st) \<in> ownedLayerIds (groups st) gid)
          then None else activeAssetId st),
       activeMenuGroupId := None\<rparr>"
  have raw: "handleDeleteItem depth gid GroupItem st =
      Some (st\<lparr>groups := filter (\<lambda>g. group_id g \<notin> set ids) (groups st),
                layers := filter (\<lambda>l. layer_id l \<notin> set (concat (map layerIds
                             (filter (\<lambda>g. group_id g \<in> set ids) (groups st))))) (layers st),
                activeAssetId :=
                  (if truthy (activeAssetId st)
                        \<and> (the (activeAssetId st) \<in> set ids
                             \<or> the (activeAssetId st) \<in> set (concat (map layerIds
                                  (filter (\<lambda>g. group_id g \<in> set ids) (groups st)))))
                   then None else activeAssetId st),
                activeMenuGroupId := None\<rparr>)"
    by (simp only: handleDeleteItem_def ids Let_def option.case if_True refl)
  have e: "handleDeleteItem depth gid GroupItem st = Some st'"
    unfolding raw d o st'_def by (rule refl)
  have orphan: "g \<in> set (groups st')"
    if l: "l \<in> set (layers st')" and g: "g \<in> set (groups st)"
      and r: "groupId l = Some (group_id g)" for l g
  proof (rule ccontr)
    assume "g \<notin> set (groups st')"
    with g have gd: "group_id g \<in> descendants (groups st) gid" by (simp add: st'_def)
    from l have l0: "l \<in> set (layers st)" and lo: "layer_id l \<notin> ownedLayerIds (groups st) gid"
      by (simp_all add: st'_def)
    from member l0 g r have "layer_id l \<in> set (layerIds g)" by blast
    with g gd have "layer_id l \<in> ownedLayerIds (groups st) gid"
      by (auto simp: ownedLayerIds_def)
    with lo show False by contradiction
  qed
  show ?thesis
  proof (intro exI [of _ st'] conjI allI impI ballI)
    show "handleDeleteItem depth gid GroupItem st = Some st'" by (rule e)
  next
    fix l g assume "l \<in> set (layers st')" "g \<in> set (groups st)" "groupId l = Some (group_id g)"
    then show "g \<in> set (groups st')" by (rule orphan)
  qed (auto simp: st'_def truthy_def)
qed


text \<open>
  Without the forest the recursion of \<open>getSubGroups\<close> does not return: a group that is
  its own parent exhausts every bound.
\<close>

lemma getSubGroups_cycle:
  assumes "g \<in> set gs" and "parentGroupId g = Some (group_id g)"
  shows "getSubGroups depth gs (group_id g) = None"
proof (induction depth)
  case 0
  then show ?case by simp
next
  case (Suc depth)
  show ?case
  proof (cases "getSubGroups (Suc depth) gs (group_id g)")
    case None
    then show ?thesis .
  next
    case (Some ids)
    with assms have "getSubGroups depth gs (group_id g) \<noteq> None"
      unfolding getSubGroups_Suc by blast
    with Suc.IH show ?thesis by contradiction
  qed
qed

lemma nested_delete:
  "handleDeleteItem 2 ''G'' GroupItem nestedLibrary =
     Some ((libraryOf [plainLayer ''d'' (Some ''H'') [], plainLayer ''e'' None []]
                      [plainGroup ''H'' [''d''] None]))"
  by (simp add: handleDeleteItem_def nestedLibrary_def libraryOf_def plainLayer_def
        plainGroup_def truthy_def numeral_2_eq_2 Let_def)

theorem delete_group_witness:
  "handleDeleteItem 2 ''G'' GroupItem nestedLibrary =
     Some ((libraryOf [plainLayer ''d'' (Some ''H'') [], plainLayer ''e'' None []]
                      [plainGroup ''H'' [''d''] None]))
   \<and> plainGroup ''H'' [''d''] None
       \<in> set (groups (libraryOf [plainLayer ''d'' (Some ''H'') [], plainLayer ''e'' None []]
                                [plainGroup ''H'' [''d''] None]))"
proof -
  define rank :: "string \<Rightarrow> nat" where "rank = (\<lambda>s. if s = ''G'' then 1 else 0)"
  have forest: "\<forall>g \<in> set (groups nestedLibrary). \<forall>p. parentGroupId g = Some p
                      \<longrightarrow> rank (group_id g) < rank p"
    by (simp add: nestedLibrary_def libraryOf_def plainGroup_def rank_def)
  have member: "\<forall>l \<in> set (layers nestedLibrary). \<forall>g \<in> set (groups nestedLibrary).
                      groupId l = Some (group_id g) \<longrightarrow> layer_id l \<in> set (layerIds g)"
    by (simp add: nestedLibrary_def libraryOf_def plainGroup_def plainLayer_def)
  have depth: "rank ''G'' < 2" by (simp add: rank_def)
  from delete_group_cascade [OF forest member depth]
  obtain st' where st': "handleDeleteItem 2 ''G'' GroupItem nestedLibrary = Some st'"
    and orphan: "\<forall>l \<in> set (layers st'). \<forall>g \<in> set (groups nestedLibrary).
           groupId l = Some (group_id g) \<longrightarrow> g \<in> set (groups st')"
    by blast
  from st' nested_delete
  have eq: "st' = libraryOf [plainLayer ''d'' (Some ''H'') [], plainLayer ''e'' None []]
                        [plainGroup ''H'' [''d''] None]"
    by simp
  have "plainLayer ''d'' (Some ''H'') [] \<in> set (layers st')"
    unfolding eq by (simp add: libraryOf_def)
  moreover have "plainGroup ''H'' [''d''] None \<in> set (groups nestedLibrary)"
    by (simp add: nestedLibrary_def libraryOf_def)
  moreover have "groupId (plainLayer ''d'' (Some ''H'') []) = Some (group_id (plainGroup ''H'' [''d''] None))"
    by (simp add: plainLayer_def plainGroup_def)
  ultimately have "plainGroup ''H'' [''d''] None \<in> set (groups st')"
    using orphan by blast
  with st' show ?thesis unfolding eq by blast
qed

section \<open>Properties of the reorder operations\<close>














end
